theory Spec2Isabelle
  imports Complex_Main "HOL-Library.Word" "HOL-Library.AList"
begin

unbundle bit_operations_syntax

section \<open>Data model of the schedule generator\<close>

text \<open>
  The engine lives in the module that exports \<open>generateBalancedSchedule\<close>.
  Teams are opaque strings.  A JavaScript \<open>Map\<close> that is iterated is an
  association list in insertion order (\<open>AList.update\<close> is \<open>Map.set\<close>: it
  overwrites in place or appends); a \<open>Map\<close> that is only read by key is a
  HOL map.  Counters are \<open>int\<close>.  Scores are exact rationals: every
  primitive of the source is a double, and IEEE rounding is not modelled.
\<close>

type_synonym team = string

record game =
  date :: string
  slot :: string
  away :: team
  home :: team

text \<open>\<open>Array.prototype.sort\<close> with a comparator: a stable insertion sort,
  which is what every stable sort returns for a consistent comparator.\<close>

fun insortBy :: "('a \<Rightarrow> 'a \<Rightarrow> int) \<Rightarrow> 'a \<Rightarrow> 'a list \<Rightarrow> 'a list" where
  "insortBy cmp x [] = [x]"
| "insortBy cmp x (y # ys) = (if cmp x y \<le> 0 then x # y # ys else y # insortBy cmp x ys)"

definition sortBy :: "('a \<Rightarrow> 'a \<Rightarrow> int) \<Rightarrow> 'a list \<Rightarrow> 'a list" where
  "sortBy cmp xs = foldr (insortBy cmp) xs []"

text \<open>\<open>(m.get(k) || 0)\<close> on a map of numbers.\<close>

definition or0 :: "int option \<Rightarrow> int" where
  "or0 v = (case v of None \<Rightarrow> 0 | Some n \<Rightarrow> n)"

definition getOr0 :: "('k \<times> int) list \<Rightarrow> 'k \<Rightarrow> int" where
  "getOr0 m k = or0 (map_of m k)"

definition bump :: "'k \<Rightarrow> ('k \<times> int) list \<Rightarrow> ('k \<times> int) list" where
  "bump k m = AList.update k (getOr0 m k + 1) m"

section \<open>Verification utilities\<close>

text \<open>\<open>summarizeSlotDistribution\<close>: per-team appearances in the games whose
  slot label is the given one, the entries sorted by \<open>localeCompare\<close> on the
  team.  The collation \<open>lc\<close> is the platform's and is a parameter.  The
  result is the sorted list of entries that the source hands to
  \<open>Object.fromEntries\<close>; the object made from it enumerates integer-like
  keys first, in numeric order, and that reordering is not modelled (the
  counts, and with them every figure of \<open>computeSlotFairness\<close>, are the
  same).\<close>

fun slotCounts :: "string \<Rightarrow> game list \<Rightarrow> (team \<times> int) list \<Rightarrow> (team \<times> int) list" where
  "slotCounts s [] counts = counts"
| "slotCounts s (g # gs) counts =
     (if slot g \<noteq> s then slotCounts s gs counts
      else slotCounts s gs (bump (home g) (bump (away g) counts)))"

definition summarizeSlotDistribution ::
  "(team \<Rightarrow> team \<Rightarrow> int) \<Rightarrow> game list \<Rightarrow> string \<Rightarrow> (team \<times> int) list" where
  "summarizeSlotDistribution lc games s =
     sortBy (\<lambda>a b. lc (fst a) (fst b)) (slotCounts s games [])"

text \<open>\<open>computeSlotFairness\<close>.  The fields \<open>mean\<close> and \<open>stdDev\<close> (doubles
  rounded through \<open>toFixed\<close>) are left out; no other field reads them.\<close>

record fairness =
  rating :: string
  frange :: int
  fmin :: int
  fmax :: int
  fair :: bool

definition rateCounts :: "int list \<Rightarrow> fairness" where
  "rateCounts counts =
     (if length counts = 0 then
        \<lparr>rating = ''N/A'', frange = 0, fmin = 0, fmax = 0, fair = True\<rparr>
      else
        let mn = Min (set counts); mx = Max (set counts); rg = mx - mn in
        if rg = 0 then \<lparr>rating = ''Perfect'', frange = rg, fmin = mn, fmax = mx, fair = True\<rparr>
        else if rg = 1 then \<lparr>rating = ''Excellent'', frange = rg, fmin = mn, fmax = mx, fair = True\<rparr>
        else if rg = 2 then \<lparr>rating = ''Good'', frange = rg, fmin = mn, fmax = mx, fair = True\<rparr>
        else if rg = 3 then \<lparr>rating = ''Fair'', frange = rg, fmin = mn, fmax = mx, fair = False\<rparr>
        else \<lparr>rating = ''Poor'', frange = rg, fmin = mn, fmax = mx, fair = False\<rparr>)"

definition computeSlotFairness ::
  "(team \<Rightarrow> team \<Rightarrow> int) \<Rightarrow> game list \<Rightarrow> string \<Rightarrow> fairness" where
  "computeSlotFairness lc games s = rateCounts (map snd (summarizeSlotDistribution lc games s))"


section \<open>Deterministic generator\<close>

text \<open>\<open>Math.imul\<close> is multiplication of 32-bit words; \<open>>>>\<close> is
  \<open>drop_bit\<close>, \<open><<\<close> is \<open>push_bit\<close>.  Characters are code units.\<close>

definition imul :: "32 word \<Rightarrow> 32 word \<Rightarrow> 32 word" where
  "imul a b = a * b"

fun hashLoop :: "string \<Rightarrow> 32 word \<Rightarrow> 32 word" where
  "hashLoop [] h = h"
| "hashLoop (c # cs) h =
     (let h1 = imul (h XOR of_nat (of_char c)) 3432918353
      in hashLoop cs (push_bit 13 h1 OR drop_bit 19 h1))"

definition hashSeed :: "string \<Rightarrow> int" where
  "hashSeed str =
     (let h = hashLoop str (1779033703 XOR of_nat (length str))
      in uint (imul (h XOR drop_bit 16 h) 2246822507 XOR drop_bit 13 h))"

text \<open>The closure of \<open>createSeededRng\<close> holds one number \<open>t\<close>; it is the
  generator's state here.  \<open>t += 0x6D2B79F5\<close> is an addition of doubles and
  does not wrap; the bit operations then read \<open>t\<close> modulo \<open>2^32\<close>.  The
  state is an exact integer here, as the double is below \<open>2^53\<close>; one
  generator gets there after nearly five million calls, from where on the
  source's sum is rounded and this model is not.  A call returns the deviate
  and the new state.\<close>

definition createSeededRng :: "string \<Rightarrow> int" where
  "createSeededRng seed = hashSeed seed"

definition rngNext :: "int \<Rightarrow> rat \<times> int" where
  "rngNext t0 =
     (let t = t0 + 1831565813;
          tw = (of_int t :: 32 word);
          r = imul (tw XOR drop_bit 15 tw) (tw OR 1);
          r2 = r XOR (r + imul (r XOR drop_bit 7 r) (r OR 61))
      in (of_int (uint (r2 XOR drop_bit 14 r2)) / 4294967296, t))"

text \<open>\<open>Math.floor(rng() * n)\<close> for a list length \<open>n\<close>.\<close>

definition pickIndex :: "rat \<Rightarrow> nat \<Rightarrow> nat" where
  "pickIndex v n = nat \<lfloor>v * of_nat n\<rfloor>"

section \<open>Locks\<close>

text \<open>A lock names the teams that must appear in a slot and, optionally, an
  explicit side for each role.  \<open>requiredTeams\<close> absent is the empty list.
  A side is tested for truthiness: absent and the empty string are falsy.\<close>

record lock =
  requiredTeams :: "team list"
  lockAway :: "team option"
  lockHome :: "team option"

definition truthy :: "team option \<Rightarrow> bool" where
  "truthy v = (case v of None \<Rightarrow> False | Some s \<Rightarrow> s \<noteq> [])"

text \<open>The elements of a JavaScript \<open>Set\<close> built from a list: first
  occurrences, in order.\<close>

fun uniq :: "'a list \<Rightarrow> 'a list" where
  "uniq [] = []"
| "uniq (x # xs) = x # filter (\<lambda>y. y \<noteq> x) (uniq xs)"

section \<open>Home/away balance and its optimizer\<close>

record bal =
  bhome :: int
  baway :: int
  diff :: int

fun homeAwayCounts :: "game list \<Rightarrow> (team \<times> int) list \<times> (team \<times> int) list
    \<Rightarrow> (team \<times> int) list \<times> (team \<times> int) list" where
  "homeAwayCounts [] hc = hc"
| "homeAwayCounts (g # gs) (homeCount, awayCount) =
     homeAwayCounts gs (bump (home g) homeCount, bump (away g) awayCount)"

definition computeHomeAwayBalance :: "game list \<Rightarrow> (team \<times> bal) list" where
  "computeHomeAwayBalance games =
     (let (homeCount, awayCount) = homeAwayCounts games ([], []);
          teams = uniq (map fst homeCount @ map fst awayCount)
      in map (\<lambda>team.
            let h = getOr0 homeCount team; a = getOr0 awayCount team
            in (team, \<lparr>bhome = h, baway = a, diff = \<bar>h - a\<bar>\<rparr>)) teams)"

text \<open>One pass of the inner \<open>gamesCopy.forEach\<close>: the indices of the games
  whose flip helps \<open>team\<close>.  A game whose lock gives both sides is skipped; a
  flip that would push the opponent further in the direction it is already
  imbalanced in is skipped.\<close>

definition flipHelps :: "(nat \<times> lock) list \<Rightarrow> (team \<times> bal) list \<Rightarrow> team \<Rightarrow> bal
    \<Rightarrow> nat \<Rightarrow> game \<Rightarrow> bool" where
  "flipHelps gameLocks balance team b idx g =
     (let needsMoreHome = (baway b > bhome b); needsMoreAway = (bhome b > baway b) in
      if (case map_of gameLocks idx of None \<Rightarrow> False
          | Some l \<Rightarrow> truthy (lockAway l) \<and> truthy (lockHome l)) then False
      else if needsMoreHome \<and> away g = team then
        (case map_of balance (home g) of None \<Rightarrow> True
         | Some ob \<Rightarrow> \<not> baway ob > bhome ob)
      else if needsMoreAway \<and> home g = team then
        (case map_of balance (away g) of None \<Rightarrow> True
         | Some ob \<Rightarrow> \<not> bhome ob > baway ob)
      else False)"

definition candidates :: "(nat \<times> lock) list \<Rightarrow> (team \<times> bal) list \<Rightarrow> game list
    \<Rightarrow> team \<Rightarrow> bal \<Rightarrow> nat list" where
  "candidates gameLocks balance games team b =
     filter (\<lambda>idx. flipHelps gameLocks balance team b idx (games ! idx)) [0..<length games]"

text \<open>The \<open>for ... of imbalanced\<close> loop: the candidates of the first team, in
  the sorted order, that has any.\<close>

fun firstFlippable :: "(nat \<times> lock) list \<Rightarrow> (team \<times> bal) list \<Rightarrow> game list
    \<Rightarrow> (team \<times> bal) list \<Rightarrow> nat list option" where
  "firstFlippable gameLocks balance games [] = None"
| "firstFlippable gameLocks balance games (tb # rest) =
     (let cands = candidates gameLocks balance games (fst tb) (snd tb) in
      if length cands > 0 then Some cands
      else firstFlippable gameLocks balance games rest)"

definition imbalancedTeams :: "(team \<times> bal) list \<Rightarrow> (team \<times> bal) list" where
  "imbalancedTeams balance =
     sortBy (\<lambda>a b. diff (snd b) - diff (snd a)) (filter (\<lambda>tb. diff (snd tb) > 0) balance)"

definition flipGame :: "game \<Rightarrow> game" where
  "flipGame g = g\<lparr>home := away g, away := home g\<rparr>"

text \<open>The \<open>while (improved && flips < maxFlips)\<close> loop.  An iteration that
  flips nothing leaves \<open>improved\<close> false and ends the loop.\<close>

function optLoop :: "(nat \<times> lock) list \<Rightarrow> int \<Rightarrow> game list \<Rightarrow> nat \<Rightarrow> int
    \<Rightarrow> game list \<times> nat" where
  "optLoop gameLocks maxFlips games flips t =
     (if int flips < maxFlips then
        let balance = computeHomeAwayBalance games;
            totalImbalance = sum_list (map (\<lambda>tb. diff (snd tb)) balance)
        in if totalImbalance = 0 then (games, flips)
           else if imbalancedTeams balance = [] then (games, flips)
           else (case firstFlippable gameLocks balance games (imbalancedTeams balance) of
                   None \<Rightarrow> (games, flips)
                 | Some cands \<Rightarrow>
                     let idx = cands ! pickIndex (fst (rngNext t)) (length cands)
                     in optLoop gameLocks maxFlips (games[idx := flipGame (games ! idx)])
                          (flips + 1) (snd (rngNext t)))
      else (games, flips))"
  by pat_completeness auto
termination
  by (relation "measure (\<lambda>(gameLocks, maxFlips, games, flips, t). nat (maxFlips - int flips))") auto

declare optLoop.simps [simp del]

definition optimizeHomeAwayBalance :: "game list \<Rightarrow> (nat \<times> lock) list \<Rightarrow> string \<Rightarrow> int
    \<Rightarrow> game list \<times> nat" where
  "optimizeHomeAwayBalance games lockRequirements seed maxFlips =
     (let gameLocks = filter (\<lambda>(slotIndex, l). slotIndex < length games) lockRequirements
      in optLoop gameLocks maxFlips games 0 (createSeededRng seed))"


section \<open>Doubleheader check\<close>

text \<open>\<open>verifyNoDoubleheaders\<close>: a map from date to a map from team to the
  indices of that team's games on the date.  Both maps are iterated, so both
  are association lists.  A violation is a date, a team and more than one
  index.\<close>

type_synonym dateMap = "(team \<times> nat list) list"

definition ensureKey :: "'k \<Rightarrow> 'v \<Rightarrow> ('k \<times> 'v) list \<Rightarrow> ('k \<times> 'v) list" where
  "ensureKey k v m = (if map_of m k = None then AList.update k v m else m)"

definition pushIndex :: "team \<Rightarrow> nat \<Rightarrow> dateMap \<Rightarrow> dateMap" where
  "pushIndex t idx dm = AList.update t (the (map_of dm t) @ [idx]) dm"

definition recordGame :: "game \<Rightarrow> nat \<Rightarrow> (string \<times> dateMap) list \<Rightarrow> (string \<times> dateMap) list" where
  "recordGame g idx teamsByDate =
     (let tbd = ensureKey (date g) [] teamsByDate;
          dm0 = the (map_of tbd (date g));
          dm1 = ensureKey (home g) [] (ensureKey (away g) [] dm0);
          dm2 = pushIndex (home g) idx (pushIndex (away g) idx dm1)
      in AList.update (date g) dm2 tbd)"

fun recordGames :: "game list \<Rightarrow> nat \<Rightarrow> (string \<times> dateMap) list \<Rightarrow> (string \<times> dateMap) list" where
  "recordGames [] idx tbd = tbd"
| "recordGames (g # gs) idx tbd = recordGames gs (idx + 1) (recordGame g idx tbd)"

record violation =
  vdate :: string
  vteam :: team
  gameCount :: nat
  gameIndices :: "nat list"

definition violationsOf :: "(string \<times> dateMap) list \<Rightarrow> violation list" where
  "violationsOf tbd =
     concat (map (\<lambda>(d, teamsOnDate).
        map (\<lambda>(t, ixs). \<lparr>vdate = d, vteam = t, gameCount = length ixs, gameIndices = ixs\<rparr>)
          (filter (\<lambda>(t, ixs). length ixs > 1) teamsOnDate)) tbd)"

record dhCheck =
  valid :: bool
  violations :: "violation list"

definition verifyNoDoubleheaders :: "game list \<Rightarrow> dhCheck" where
  "verifyNoDoubleheaders games =
     (let vs = violationsOf (recordGames games 0 [])
      in \<lparr>valid = (length vs = 0), violations = vs\<rparr>)"

section \<open>Pair ledger and slot assigner\<close>

definition computeTargetRange :: "nat \<Rightarrow> nat \<Rightarrow> int \<times> int" where
  "computeTargetRange teamCount slotGameCount =
     (let appearances = slotGameCount * 2;
          ideal = (if teamCount \<noteq> 0 then (of_nat appearances :: rat) / of_nat teamCount else 0)
      in (\<lfloor>ideal\<rfloor>, \<lceil>ideal\<rceil>))"

definition toTeamArray :: "team list \<Rightarrow> team list" where
  "toTeamArray teams = uniq teams"

text \<open>An entry of the ledger: \<open>entry.teams\<close> is \<open>[teamA, teamB]\<close>.  The
  field \<open>homeToggle\<close> is never read and is left out.\<close>

record entry =
  teamA :: team
  teamB :: team
  remaining :: int

text \<open>The nested \<open>for i\<close>, \<open>for j = i + 1\<close> loops of \<open>createPairState\<close> over
  the sorted teams.\<close>

fun pairsOf :: "team list \<Rightarrow> int \<Rightarrow> entry list" where
  "pairsOf [] gamesPerPair = []"
| "pairsOf (x # xs) gamesPerPair =
     map (\<lambda>y. \<lparr>teamA = x, teamB = y, remaining = gamesPerPair\<rparr>) xs @ pairsOf xs gamesPerPair"

definition createPairState :: "(team \<Rightarrow> team \<Rightarrow> int) \<Rightarrow> team list \<Rightarrow> int \<Rightarrow> entry list" where
  "createPairState lc teams gamesPerPair = pairsOf (sortBy lc teams) gamesPerPair"

definition needScore :: "int \<Rightarrow> int \<Rightarrow> int" where
  "needScore count minTarget = max 0 (minTarget - count)"

definition projectedExcess :: "int \<Rightarrow> int \<Rightarrow> int \<Rightarrow> int" where
  "projectedExcess count delta maxTarget = max 0 ((count + delta) - maxTarget)"

text \<open>The argument object of \<open>selectPair\<close>, as \<open>tryGenerateSchedule\<close> fills
  it: \<open>required\<close> is \<open>requiredTeams\<close> (\<open>None\<close> for \<open>null\<close>),
  \<open>allLockedTeams\<close> is \<open>None\<close> for \<open>null\<close>.  The \<open>diagnostics\<close> counters
  feed the failure text only and are left out, as is \<open>currentDate\<close>, which is
  never read.\<close>

record selectArgs =
  pairs :: "entry list"
  isTargetSlot :: bool
  teamTargetCounts :: "team \<rightharpoonup> int"
  minTarget :: int
  maxTarget :: int
  teamGamesRemaining :: "team \<rightharpoonup> int"
  rng :: int
  required :: "team list option"
  teamsPlayedToday :: "team set"
  allLockedTeams :: "team set option"
  teamsThisWeek :: "team \<rightharpoonup> int"

definition forced :: "selectArgs \<Rightarrow> bool" where
  "forced a = (case required a of None \<Rightarrow> False | Some r \<Rightarrow> length r > 0)"

datatype rejection = noGames | wrongTeams | sameDay | teamLocked | weekLimit | wouldExceed

text \<open>The eligibility filter of \<open>selectPair\<close>, in the order of its early
  returns: the counter it would increment, or \<open>None\<close> when the pair survives.\<close>

definition rejectedBy :: "selectArgs \<Rightarrow> entry \<Rightarrow> rejection option" where
  "rejectedBy a e =
     (let weeklyCountA = or0 (teamsThisWeek a (teamA e));
          weeklyCountB = or0 (teamsThisWeek a (teamB e));
          targetCountA = or0 (teamTargetCounts a (teamA e));
          targetCountB = or0 (teamTargetCounts a (teamB e));
          projectedA = projectedExcess targetCountA (if isTargetSlot a then 1 else 0) (maxTarget a);
          projectedB = projectedExcess targetCountB (if isTargetSlot a then 1 else 0) (maxTarget a)
      in
      if remaining e \<le> 0 then Some noGames
      else if forced a \<and> \<not> list_all (\<lambda>t. t \<in> set [teamA e, teamB e]) (the (required a))
        then Some wrongTeams
      else if teamA e \<in> teamsPlayedToday a \<or> teamB e \<in> teamsPlayedToday a then Some sameDay
      else if \<not> forced a \<and> (case allLockedTeams a of None \<Rightarrow> False
                | Some locked \<Rightarrow> teamA e \<in> locked \<or> teamB e \<in> locked) then Some teamLocked
      else if \<not> forced a \<and> (weeklyCountA \<ge> 2 \<or> weeklyCountB \<ge> 2) then Some weekLimit
      else if \<not> forced a \<and> (projectedA > 0 \<or> projectedB > 0) then Some wouldExceed
      else None)"

text \<open>A score is a number, \<open>-Infinity\<close> (the initial best) or \<open>NaN\<close> (a team
  missing from \<open>teamGamesRemaining\<close>); \<open>>\<close> and \<open>===\<close> on them.\<close>

datatype jsnum = NegInfinity | Num rat | NaN

fun jsGreater :: "jsnum \<Rightarrow> jsnum \<Rightarrow> bool" where
  "jsGreater (Num x) (Num y) = (x > y)"
| "jsGreater (Num x) NegInfinity = True"
| "jsGreater _ _ = False"

fun jsEqual :: "jsnum \<Rightarrow> jsnum \<Rightarrow> bool" where
  "jsEqual (Num x) (Num y) = (x = y)"
| "jsEqual NegInfinity NegInfinity = True"
| "jsEqual _ _ = False"

definition scoreOf :: "selectArgs \<Rightarrow> entry \<Rightarrow> rat \<Rightarrow> jsnum" where
  "scoreOf a e u =
     (let weeklyCountA = or0 (teamsThisWeek a (teamA e));
          weeklyCountB = or0 (teamsThisWeek a (teamB e));
          needA = needScore (or0 (teamTargetCounts a (teamA e))) (minTarget a);
          needB = needScore (or0 (teamTargetCounts a (teamB e))) (minTarget a);
          base = (of_int (remaining e) :: rat);
          targetScore = (if isTargetSlot a then of_int (needA + needB) * 3
                         else of_int (needA + needB) * (- (2 / 10)));
          weeklyPenalty = of_int (weeklyCountA + weeklyCountB) * (- 2);
          jitter = u * (5 / 100)
      in case (teamGamesRemaining a (teamA e), teamGamesRemaining a (teamB e)) of
           (Some ga, Some gb) \<Rightarrow>
             Num (base + targetScore + of_int (ga + gb) * (2 / 100) + weeklyPenalty + jitter)
         | _ \<Rightarrow> NaN)"

text \<open>The \<open>pairs.forEach\<close> of \<open>selectPair\<close>.  \<open>best\<close> holds references to
  entries of \<open>pairs\<close>: here their indices.  The generator is called once for
  each surviving pair.\<close>

fun scanPairs :: "selectArgs \<Rightarrow> (nat \<times> entry) list \<Rightarrow> jsnum \<times> nat list \<times> int
    \<Rightarrow> jsnum \<times> nat list \<times> int" where
  "scanPairs a [] acc = acc"
| "scanPairs a ((k, e) # rest) (bestScore, best, t) =
     (if rejectedBy a e \<noteq> None then scanPairs a rest (bestScore, best, t)
      else
        let score = scoreOf a e (fst (rngNext t)); t' = snd (rngNext t) in
        if jsGreater score bestScore then scanPairs a rest (score, [k], t')
        else if jsEqual score bestScore then scanPairs a rest (bestScore, best @ [k], t')
        else scanPairs a rest (bestScore, best, t'))"

definition selectPair :: "selectArgs \<Rightarrow> nat option \<times> int" where
  "selectPair a =
     (case scanPairs a (enumerate 0 (pairs a)) (NegInfinity, [], rng a) of
        (bestScore, best, t) \<Rightarrow>
          if length best = 0 then (None, t)
          else (Some (best ! pickIndex (fst (rngNext t)) (length best)), snd (rngNext t)))"

record timeslot =
  sdate :: string
  slotLabel :: string
  index :: "nat option"

text \<open>The balance rule of \<open>assignGame\<close> (the source has it twice, in the
  locked and in the unlocked branch): the result is \<open>(away, home)\<close> and the
  generator's state.\<close>

definition byBalance :: "entry \<Rightarrow> int \<Rightarrow> (team \<rightharpoonup> int) \<Rightarrow> (team \<rightharpoonup> int) \<Rightarrow> (team \<times> team) \<times> int" where
  "byBalance e t homeCount awayCount =
     (let balanceScoreA = or0 (homeCount (teamA e)) - or0 (awayCount (teamA e));
          balanceScoreB = or0 (homeCount (teamB e)) - or0 (awayCount (teamB e))
      in if \<bar>balanceScoreA - balanceScoreB\<bar> > 1 then
           (if balanceScoreA < balanceScoreB then ((teamB e, teamA e), t)
            else ((teamA e, teamB e), t))
         else
           let swap = (fst (rngNext t) < 1 / 2)
           in ((if swap then teamB e else teamA e, if swap then teamA e else teamB e),
               snd (rngNext t)))"

text \<open>\<open>entry.teams.find((team) => team !== x) || x\<close>.\<close>

definition otherTeam :: "entry \<Rightarrow> team \<Rightarrow> team" where
  "otherTeam e x =
     (let found = (if teamA e \<noteq> x then Some (teamA e)
                   else if teamB e \<noteq> x then Some (teamB e) else None)
      in if truthy found then the found else x)"

definition assignGame :: "timeslot \<Rightarrow> entry \<Rightarrow> int \<Rightarrow> lock option
    \<Rightarrow> (team \<rightharpoonup> int) \<Rightarrow> (team \<rightharpoonup> int) \<Rightarrow> game \<times> int" where
  "assignGame s e t lck homeCount awayCount =
     (let (sides, t') =
        (case lck of
           Some l \<Rightarrow>
             if truthy (lockAway l) \<and> truthy (lockHome l) then
               ((the (lockAway l), the (lockHome l)), t)
             else if truthy (lockAway l) then
               ((the (lockAway l), otherTeam e (the (lockAway l))), t)
             else if truthy (lockHome l) then
               ((otherTeam e (the (lockHome l)), the (lockHome l)), t)
             else
               (case byBalance e t homeCount awayCount of
                  ((aw, hm), t1) \<Rightarrow>
                    if length (uniq (requiredTeams l)) = 1
                       \<and> aw \<noteq> hd (uniq (requiredTeams l)) \<and> hm = hd (uniq (requiredTeams l))
                    then ((hm, aw), t1) else ((aw, hm), t1))
         | None \<Rightarrow> byBalance e t homeCount awayCount)
      in (\<lparr>date = sdate s, slot = slotLabel s, away = fst sides, home = snd sides\<rparr>, t'))"


section \<open>Attempt orchestrator\<close>

text \<open>The local variables of \<open>tryGenerateSchedule\<close> that its loop changes.
  \<open>homeCount\<close> and \<open>awayCount\<close> are the two maps of \<open>homeAwayCounts\<close>.
  \<open>teamsByDate\<close> and \<open>teamsByWeek\<close> are created on first use, so an absent
  key is the empty set or map.  In \<open>homeCount\<close>, \<open>awayCount\<close> and
  \<open>remainingGames\<close> a value is written as \<open>get(k) + 1\<close> or \<open>get(k) - 1\<close>
  without a default: for an absent key that is \<open>NaN\<close>, which every reader
  treats as absent, and which is \<open>None\<close> here.\<close>

record attempt =
  ledger :: "entry list"
  targetCounts :: "team \<rightharpoonup> int"
  remainingGames :: "team \<rightharpoonup> int"
  assignments :: "game list"
  teamsByDate :: "string \<Rightarrow> team set"
  teamsByWeek :: "string \<Rightarrow> (team \<rightharpoonup> int)"
  homeCount :: "team \<rightharpoonup> int"
  awayCount :: "team \<rightharpoonup> int"
  gen :: int

definition addTo :: "team \<Rightarrow> int \<Rightarrow> (team \<rightharpoonup> int) \<Rightarrow> (team \<rightharpoonup> int)" where
  "addTo k d m = m(k := map_option (\<lambda>v. v + d) (m k))"

definition incr :: "team \<Rightarrow> (team \<rightharpoonup> int) \<Rightarrow> (team \<rightharpoonup> int)" where
  "incr k m = m(k \<mapsto> or0 (m k) + 1)"

text \<open>The body of the \<open>for\<close> loop over the slots: \<open>None\<close> when
  \<open>selectPair\<close> finds no pair (the attempt fails at this slot).  The week key
  of a date is computed by the platform's \<open>Date\<close>; \<open>getWeekKey\<close> is a
  parameter.\<close>

definition fillSlot :: "(string \<Rightarrow> string) \<Rightarrow> string \<Rightarrow> (nat \<times> lock) list \<Rightarrow> int \<Rightarrow> int
    \<Rightarrow> team set option \<Rightarrow> nat \<Rightarrow> timeslot \<Rightarrow> attempt \<Rightarrow> attempt option" where
  "fillSlot getWeekKey targetSlot lockRequirements minT maxT allLocked i s st =
     (let slotLock = map_of lockRequirements (case index s of None \<Rightarrow> i | Some j \<Rightarrow> j);
          weekKey = getWeekKey (sdate s);
          sel = selectPair \<lparr>pairs = ledger st, isTargetSlot = (slotLabel s = targetSlot),
                  teamTargetCounts = targetCounts st, minTarget = minT, maxTarget = maxT,
                  teamGamesRemaining = remainingGames st, rng = gen st,
                  required = (case slotLock of None \<Rightarrow> None | Some l \<Rightarrow> Some (requiredTeams l)),
                  teamsPlayedToday = teamsByDate st (sdate s), allLockedTeams = allLocked,
                  teamsThisWeek = teamsByWeek st weekKey\<rparr>
      in case fst sel of
           None \<Rightarrow> None
         | Some c \<Rightarrow>
             let candidate = ledger st ! c;
                 ga = assignGame s candidate (snd sel) slotLock (homeCount st) (awayCount st);
                 g = fst ga
             in Some (st\<lparr>
                  ledger := (ledger st)[c := candidate\<lparr>remaining := remaining candidate - 1\<rparr>],
                  assignments := assignments st @ [g],
                  homeCount := addTo (home g) 1 (homeCount st),
                  awayCount := addTo (away g) 1 (awayCount st),
                  teamsByDate := (teamsByDate st)
                     (sdate s := insert (home g) (insert (away g) (teamsByDate st (sdate s)))),
                  teamsByWeek := (teamsByWeek st)
                     (weekKey := incr (home g) (incr (away g) (teamsByWeek st weekKey))),
                  remainingGames := addTo (home g) (- 1) (addTo (away g) (- 1) (remainingGames st)),
                  targetCounts := (if slotLabel s = targetSlot
                     then incr (home g) (incr (away g) (targetCounts st)) else targetCounts st),
                  gen := snd ga\<rparr>))"

text \<open>The loop: the index of the slot that could not be filled, if any, and
  the state reached.\<close>

fun fillSlots :: "(string \<Rightarrow> string) \<Rightarrow> string \<Rightarrow> (nat \<times> lock) list \<Rightarrow> int \<Rightarrow> int
    \<Rightarrow> team set option \<Rightarrow> nat \<Rightarrow> timeslot list \<Rightarrow> attempt \<Rightarrow> nat option \<times> attempt" where
  "fillSlots getWeekKey targetSlot lockRequirements minT maxT allLocked i [] st = (None, st)"
| "fillSlots getWeekKey targetSlot lockRequirements minT maxT allLocked i (s # rest) st =
     (case fillSlot getWeekKey targetSlot lockRequirements minT maxT allLocked i s st of
        None \<Rightarrow> (Some i, st)
      | Some st' \<Rightarrow>
          fillSlots getWeekKey targetSlot lockRequirements minT maxT allLocked (i + 1) rest st')"

text \<open>The failure text is kept as its parts: the slot that had no matchup
  (number, date, label), or the number of ledger entries left open.\<close>

datatype reason =
    NoMatchup nat string string
  | Unassigned nat
  | Doubleheaders "violation list"

datatype tryResult =
    Failure reason "nat option" "game list"
  | Success "game list" int int "team \<rightharpoonup> int" "team \<rightharpoonup> int" "team \<rightharpoonup> int"

definition lockedTeamsOf :: "(nat \<times> lock) list \<Rightarrow> team set option" where
  "lockedTeamsOf lockRequirements =
     (let ts = concat (map (\<lambda>(i, l). requiredTeams l) lockRequirements)
      in if length ts > 0 then Some (set ts) else None)"

definition initialAttempt :: "(team \<Rightarrow> team \<Rightarrow> int) \<Rightarrow> team list \<Rightarrow> string \<Rightarrow> int \<Rightarrow> attempt" where
  "initialAttempt lc teams seed gamesPerPair =
     (let gamesNeededPerTeam = gamesPerPair * (int (length teams) - 1) in
      \<lparr>ledger = createPairState lc teams gamesPerPair,
       targetCounts = map_of (map (\<lambda>team. (team, 0)) teams),
       remainingGames = map_of (map (\<lambda>team. (team, gamesNeededPerTeam)) teams),
       assignments = [],
       teamsByDate = (\<lambda>d. {}),
       teamsByWeek = (\<lambda>w. Map.empty),
       homeCount = map_of (map (\<lambda>team. (team, 0)) teams),
       awayCount = map_of (map (\<lambda>team. (team, 0)) teams),
       gen = createSeededRng seed\<rparr>)"

definition tryGenerateSchedule :: "(team \<Rightarrow> team \<Rightarrow> int) \<Rightarrow> (string \<Rightarrow> string) \<Rightarrow> team list
    \<Rightarrow> timeslot list \<Rightarrow> string \<Rightarrow> string \<Rightarrow> int \<Rightarrow> (nat \<times> lock) list \<Rightarrow> tryResult" where
  "tryGenerateSchedule lc getWeekKey teams slots targetSlot seed gamesPerPair lockRequirements =
     (let targetSlots = length (filter (\<lambda>s. slotLabel s = targetSlot) slots);
          (minT, maxT) = computeTargetRange (length teams) targetSlots
      in case fillSlots getWeekKey targetSlot lockRequirements minT maxT
                (lockedTeamsOf lockRequirements) 0 slots
                (initialAttempt lc teams seed gamesPerPair) of
           (Some i, st) \<Rightarrow>
             Failure (NoMatchup (i + 1) (sdate (slots ! i)) (slotLabel (slots ! i))) (Some i)
               (assignments st)
         | (None, st) \<Rightarrow>
             let unfinished = filter (\<lambda>e. remaining e > 0) (ledger st) in
             if length unfinished > 0 then
               Failure (Unassigned (length unfinished)) None (assignments st)
             else Success (assignments st) minT maxT (targetCounts st) (homeCount st) (awayCount st))"

section \<open>Retry orchestrator\<close>

text \<open>The decimal digits of a number, as \<open>String(n)\<close> and template strings
  print it.\<close>

fun digitsOf :: "nat \<Rightarrow> string" where
  "digitsOf n = (if n < 10 then [''0123456789'' ! n]
                 else digitsOf (n div 10) @ [''0123456789'' ! (n mod 10)])"

declare digitsOf.simps [simp del]

record failure =
  fattempt :: nat
  freason :: reason
  fslotIndex :: "nat option"
  partialGames :: "game list"
  fseed :: string

record generated =
  attemptResult :: tryResult
  finalGames :: "game list"
  usedSeed :: string
  attempts :: nat
  homeAwayFlips :: nat

datatype genError = NoTeams | NoSlots | Exhausted "failure list" | TypeError

text \<open>The \<open>for (attempt = 0; attempt < maxAttempts; ...)\<close> loop.  With no
  failure recorded (\<open>maxAttempts \<le> 0\<close>) the source reads \<open>reason\<close> of
  \<open>undefined\<close>, a \<open>TypeError\<close>.  The loop is written over the function it
  calls to optimize, \<open>optimizer\<close>: the source's loop is the instance at
  \<open>optimizeHomeAwayBalance\<close>, which is how \<open>generateBalancedSchedule\<close> below
  uses it.  The check that follows the optimizer's call guards against an
  optimizer whose output has a doubleheader, and with the callee as an
  argument that check can be stated and run for any output.\<close>

function attemptLoopWith :: "(game list \<Rightarrow> (nat \<times> lock) list \<Rightarrow> string \<Rightarrow> int \<Rightarrow> game list \<times> nat)
    \<Rightarrow> (team \<Rightarrow> team \<Rightarrow> int) \<Rightarrow> (string \<Rightarrow> string) \<Rightarrow> team list
    \<Rightarrow> timeslot list \<Rightarrow> string \<Rightarrow> string \<Rightarrow> int \<Rightarrow> int \<Rightarrow> (nat \<times> lock) list \<Rightarrow> bool
    \<Rightarrow> nat \<Rightarrow> failure list \<Rightarrow> genError + generated" where
  "attemptLoopWith optimizer lc getWeekKey teams slots targetSlot sd gamesPerPair maxAttempts
      lockRequirements optimizeHomeAway attempt failures =
     (if int attempt < maxAttempts then
        let attemptSeed = sd @ ''-'' @ digitsOf attempt;
            res = tryGenerateSchedule lc getWeekKey teams slots targetSlot attemptSeed
                    gamesPerPair lockRequirements
        in case res of
             Success gs mn mx tc hc ac \<Rightarrow>
               let dhCheck = verifyNoDoubleheaders gs in
               if \<not> valid dhCheck then
                 attemptLoopWith optimizer lc getWeekKey teams slots targetSlot sd gamesPerPair
                   maxAttempts lockRequirements optimizeHomeAway (attempt + 1)
                   (failures @ [\<lparr>fattempt = attempt + 1,
                      freason = Doubleheaders (take 3 (violations dhCheck)),
                      fslotIndex = None, partialGames = gs, fseed = attemptSeed\<rparr>])
               else if optimizeHomeAway then
                 let optimized = optimizer gs lockRequirements (attemptSeed @ ''-optimize'') 100;
                     dhCheckAfter = verifyNoDoubleheaders (fst optimized)
                 in if \<not> valid dhCheckAfter then
                      Inr \<lparr>attemptResult = res, finalGames = gs, usedSeed = attemptSeed,
                           attempts = attempt + 1, homeAwayFlips = 0\<rparr>
                    else
                      Inr \<lparr>attemptResult = res, finalGames = fst optimized, usedSeed = attemptSeed,
                           attempts = attempt + 1, homeAwayFlips = snd optimized\<rparr>
               else Inr \<lparr>attemptResult = res, finalGames = gs, usedSeed = attemptSeed,
                         attempts = attempt + 1, homeAwayFlips = 0\<rparr>
           | Failure why slotIndex partial \<Rightarrow>
               attemptLoopWith optimizer lc getWeekKey teams slots targetSlot sd gamesPerPair
                 maxAttempts lockRequirements optimizeHomeAway (attempt + 1)
                 (failures @ [\<lparr>fattempt = attempt + 1, freason = why, fslotIndex = slotIndex,
                    partialGames = partial, fseed = attemptSeed\<rparr>])
      else if length failures = 0 then Inl TypeError
      else Inl (Exhausted failures))"
  by pat_completeness auto
termination
  by (relation "measure (\<lambda>(optimizer, lc, getWeekKey, teams, slots, targetSlot, sd, gamesPerPair,
        maxAttempts, lockRequirements, optimizeHomeAway, attempt, failures).
        nat (maxAttempts - int attempt))") auto

declare attemptLoopWith.simps [simp del]

text \<open>\<open>generateBalancedSchedule\<close>.  The default of \<open>seed\<close> is \<open>Date.now()\<close>,
  read once when the call starts: \<open>now\<close> is that reading and \<open>seed\<close> is
  \<open>None\<close> when the caller gives none.  \<open>verbose\<close> only prints and is left
  out.\<close>

definition generateBalancedSchedule :: "(team \<Rightarrow> team \<Rightarrow> int) \<Rightarrow> (string \<Rightarrow> string) \<Rightarrow> nat
    \<Rightarrow> team list \<Rightarrow> timeslot list \<Rightarrow> string \<Rightarrow> string option \<Rightarrow> int \<Rightarrow> int
    \<Rightarrow> (nat \<times> lock) list \<Rightarrow> bool \<Rightarrow> genError + generated" where
  "generateBalancedSchedule lc getWeekKey now teams slots targetSlot seedArg gamesPerPair
      maxAttempts lockRequirements optimizeHomeAway =
     (let sd = (case seedArg of None \<Rightarrow> digitsOf now | Some v \<Rightarrow> v);
          normalizedTeams = toTeamArray teams
      in if length normalizedTeams = 0 then Inl NoTeams
         else if length slots = 0 then Inl NoSlots
         else attemptLoopWith optimizeHomeAwayBalance lc getWeekKey normalizedTeams slots
                targetSlot sd gamesPerPair maxAttempts lockRequirements optimizeHomeAway 0 [])"


section \<open>Example inputs\<close>

text \<open>A collation for the examples: order by code unit, which is the order
  \<open>localeCompare\<close> gives the upper-case ASCII names used below.\<close>

fun compareStrings :: "string \<Rightarrow> string \<Rightarrow> int" where
  "compareStrings [] [] = 0"
| "compareStrings [] (y # ys) = - 1"
| "compareStrings (x # xs) [] = 1"
| "compareStrings (x # xs) (y # ys) =
     (if (of_char x :: nat) < of_char y then - 1
      else if (of_char y :: nat) < of_char x then 1 else compareStrings xs ys)"

definition mkGame :: "string \<Rightarrow> string \<Rightarrow> team \<Rightarrow> team \<Rightarrow> game" where
  "mkGame d s a h = \<lparr>date = d, slot = s, away = a, home = h\<rparr>"

definition evening :: string where
  "evening = ''7:00PM - 9:00PM''"

definition afternoon :: string where
  "afternoon = ''5:00PM - 7:00PM''"

text \<open>One afternoon game; two evening games.\<close>

definition oneAfternoonGame :: "game list" where
  "oneAfternoonGame = [mkGame ''03/01/2026'' afternoon ''A'' ''B'']"

definition twoEveningGames :: "game list" where
  "twoEveningGames =
     [mkGame ''03/01/2026'' evening ''A'' ''B'', mkGame ''03/08/2026'' evening ''C'' ''A'']"

text \<open>Three games: the first two are pinned by locks that give both sides.\<close>

definition pinnedGames :: "game list" where
  "pinnedGames =
     [mkGame ''03/01/2026'' evening ''A'' ''B'', mkGame ''03/08/2026'' evening ''A'' ''C'',
      mkGame ''03/15/2026'' evening ''D'' ''E'']"

definition pinnedLocks :: "(nat \<times> lock) list" where
  "pinnedLocks =
     [(0, \<lparr>requiredTeams = [''A'', ''B''], lockAway = Some ''A'', lockHome = Some ''B''\<rparr>),
      (1, \<lparr>requiredTeams = [''A'', ''C''], lockAway = Some ''A'', lockHome = Some ''C''\<rparr>)]"

text \<open>A home-and-away pair of games.\<close>

definition balancedGames :: "game list" where
  "balancedGames =
     [mkGame ''03/01/2026'' evening ''A'' ''B'', mkGame ''03/08/2026'' evening ''B'' ''A'']"

section \<open>Selection as the specification words it\<close>






section \<open>Example arguments of the slot assigner\<close>

definition mkEntry :: "team \<Rightarrow> team \<Rightarrow> int \<Rightarrow> entry" where
  "mkEntry x y n = \<lparr>teamA = x, teamB = y, remaining = n\<rparr>"


text \<open>An unlocked slot outside the target slot; team A already has two
  target-slot games with a maximum of one.\<close>

definition overMaxArgs :: selectArgs where
  "overMaxArgs =
     \<lparr>pairs = [mkEntry ''A'' ''B'' 1],
      isTargetSlot = False,
      teamTargetCounts = map_of [(''A'', 2), (''B'', 0)],
      minTarget = 0, maxTarget = 1,
      teamGamesRemaining = map_of [(''A'', 1), (''B'', 1)],
      rng = createSeededRng ''s-0'',
      required = None, teamsPlayedToday = {}, allLockedTeams = None,
      teamsThisWeek = Map.empty\<rparr>"

text \<open>A slot locked to team A alone, with no side given; A has played twice
  away and B twice at home, so the balance rule puts A at home.\<close>

definition singleLock :: lock where
  "singleLock = \<lparr>requiredTeams = [''A''], lockAway = None, lockHome = None\<rparr>"


definition eveningSlot :: "string \<Rightarrow> timeslot" where
  "eveningSlot d = \<lparr>sdate = d, slotLabel = evening, index = None\<rparr>"

section \<open>Example runs\<close>

text \<open>What a caller reads off \<open>result.success\<close> and \<open>result.games\<close> (or
  \<open>partialGames\<close>), and off the returned schedule.\<close>

fun succeeded :: "tryResult \<Rightarrow> bool" where
  "succeeded (Success gs mn mx tc hc ac) = True"
| "succeeded (Failure why i gs) = False"

fun gamesOf :: "tryResult \<Rightarrow> game list" where
  "gamesOf (Success gs mn mx tc hc ac) = gs"
| "gamesOf (Failure why i gs) = gs"

definition outcome :: "genError + generated \<Rightarrow> (game list \<times> nat) option" where
  "outcome r = (case r of Inl e \<Rightarrow> None | Inr g \<Rightarrow> Some (finalGames g, homeAwayFlips g))"

text \<open>The week keys (the Monday of the week) of the dates used below, as
  \<open>getWeekKey\<close> computes them.\<close>

definition exampleWeekKey :: "string \<Rightarrow> string" where
  "exampleWeekKey d =
     (if d = ''03/01/2026'' then ''2026-02-23''
      else if d = ''03/08/2026'' then ''2026-03-02''
      else if d = ''03/15/2026'' then ''2026-03-09''
      else if d = ''03/22/2026'' then ''2026-03-16''
      else if d = ''03/29/2026'' then ''2026-03-23'' else d)"

definition afternoonSlot :: "string \<Rightarrow> timeslot" where
  "afternoonSlot d = \<lparr>sdate = d, slotLabel = afternoon, index = None\<rparr>"

text \<open>Two teams that meet twice, a week apart.\<close>

definition twoSlots :: "timeslot list" where
  "twoSlots = [eveningSlot ''03/01/2026'', eveningSlot ''03/08/2026'']"

text \<open>A lock taken from a historical game \<open>a @ h\<close> in which only \<open>a\<close> is a
  locked team: \<open>a\<close> is required, and both historical sides are given.\<close>

definition sideLock :: "team \<Rightarrow> team \<Rightarrow> lock" where
  "sideLock a h = \<lparr>requiredTeams = [a], lockAway = Some a, lockHome = Some h\<rparr>"

text \<open>Four teams, six slots, the first two on one date; team A is locked to
  its three historical games.\<close>

definition sixSlots :: "timeslot list" where
  "sixSlots =
     [afternoonSlot ''03/01/2026'', eveningSlot ''03/01/2026'', eveningSlot ''03/08/2026'',
      eveningSlot ''03/15/2026'', eveningSlot ''03/22/2026'', eveningSlot ''03/29/2026'']"

definition historicalLocks :: "(nat \<times> lock) list" where
  "historicalLocks =
     [(1, sideLock ''A'' ''B''), (2, sideLock ''A'' ''C''), (3, sideLock ''A'' ''D'')]"

definition sixGames :: "game list" where
  "sixGames =
     [mkGame ''03/01/2026'' afternoon ''D'' ''B'', mkGame ''03/01/2026'' evening ''A'' ''B'',
      mkGame ''03/08/2026'' evening ''A'' ''C'', mkGame ''03/15/2026'' evening ''A'' ''D'',
      mkGame ''03/22/2026'' evening ''C'' ''B'', mkGame ''03/29/2026'' evening ''D'' ''C'']"

text \<open>The games of the same run under the next attempt's seed.\<close>

definition sixGamesRetry :: "game list" where
  "sixGamesRetry =
     [mkGame ''03/01/2026'' afternoon ''B'' ''C'', mkGame ''03/01/2026'' evening ''A'' ''B'',
      mkGame ''03/08/2026'' evening ''A'' ''C'', mkGame ''03/15/2026'' evening ''A'' ''D'',
      mkGame ''03/22/2026'' evening ''C'' ''D'', mkGame ''03/29/2026'' evening ''D'' ''B'']"



text \<open>Two stand-ins for the optimizer, to run the check that follows its
  call: the first moves every game to one date and reports one flip, the
  second flips every game.\<close>

definition sameDateOptimizer :: "game list \<Rightarrow> (nat \<times> lock) list \<Rightarrow> string \<Rightarrow> int
    \<Rightarrow> game list \<times> nat" where
  "sameDateOptimizer games lockRequirements seed maxFlips =
     (map (\<lambda>g. g\<lparr>date := ''03/01/2026''\<rparr>) games, 1)"

definition flipAllOptimizer :: "game list \<Rightarrow> (nat \<times> lock) list \<Rightarrow> string \<Rightarrow> int
    \<Rightarrow> game list \<times> nat" where
  "flipAllOptimizer games lockRequirements seed maxFlips = (map flipGame games, length games)"

text \<open>Three teams, three slots a week apart; team A is locked to two
  historical games, both against B.\<close>

definition threeSlots :: "timeslot list" where
  "threeSlots =
     [afternoonSlot ''03/01/2026'', afternoonSlot ''03/08/2026'', eveningSlot ''03/15/2026'']"

definition repeatLocks :: "(nat \<times> lock) list" where
  "repeatLocks = [(0, sideLock ''A'' ''B''), (1, sideLock ''A'' ''B'')]"

text \<open>The same four teams and six slots with team A locked to the second,
  third and fourth slot as a required team only, which is how the command
  line builds its locks; the same locks inserted in another order, one of
  them naming its team twice; and the games of the first attempt.\<close>

definition teamLocks :: "(nat \<times> lock) list" where
  "teamLocks = [(1, singleLock), (2, singleLock), (3, singleLock)]"


definition teamLockGames :: "game list" where
  "teamLockGames =
     [mkGame ''03/01/2026'' afternoon ''D'' ''B'', mkGame ''03/01/2026'' evening ''A'' ''C'',
      mkGame ''03/08/2026'' evening ''A'' ''B'', mkGame ''03/15/2026'' evening ''A'' ''D'',
      mkGame ''03/22/2026'' evening ''B'' ''C'', mkGame ''03/29/2026'' evening ''C'' ''D'']"


section \<open>Properties of an accepted schedule\<close>

text \<open>The number of games in which two teams meet, and the number of games of
  a team on a date.\<close>

definition appearances :: "string \<Rightarrow> team \<Rightarrow> game list \<Rightarrow> nat" where
  "appearances d t gs =
     length (filter (\<lambda>g. date g = d \<and> away g = t) gs)
     + length (filter (\<lambda>g. date g = d \<and> home g = t) gs)"

definition meetings :: "team \<Rightarrow> team \<Rightarrow> game list \<Rightarrow> nat" where
  "meetings a b gs = length (filter (\<lambda>g. {away g, home g} = {a, b}) gs)"

definition sidesWithinRequired :: "lock \<Rightarrow> bool" where
  "sidesWithinRequired l =
     ((truthy (lockAway l) \<longrightarrow> the (lockAway l) \<in> set (requiredTeams l))
      \<and> (truthy (lockHome l) \<longrightarrow> the (lockHome l) \<in> set (requiredTeams l))
      \<and> (truthy (lockAway l) \<and> truthy (lockHome l) \<longrightarrow> lockAway l \<noteq> lockHome l))"

definition unordered :: "entry \<Rightarrow> team set" where
  "unordered e = {teamA e, teamB e}"

definition ledgerInv :: "entry list \<Rightarrow> int \<Rightarrow> attempt \<Rightarrow> bool" where
  "ledgerInv P gpp st =
     (map teamA (ledger st) = map teamA P \<and> map teamB (ledger st) = map teamB P
      \<and> (\<forall>k<length (ledger st).
            (0 \<le> gpp \<longrightarrow> 0 \<le> remaining (ledger st ! k))
            \<and> remaining (ledger st ! k)
                + int (length (filter (\<lambda>g. {away g, home g} = unordered (ledger st ! k))
                         (assignments st))) = gpp))"

definition dateInv :: "attempt \<Rightarrow> bool" where
  "dateInv st =
     ((\<forall>d t. t \<in> teamsByDate st d \<longleftrightarrow> 0 < appearances d t (assignments st))
      \<and> (\<forall>d t. appearances d t (assignments st) \<le> 1))"

definition wellFormedPairs :: "entry list \<Rightarrow> bool" where
  "wellFormedPairs P =
     (distinct (map unordered P)
      \<and> (\<forall>e\<in>set P. teamA e \<noteq> teamB e \<and> teamA e \<noteq> [] \<and> teamB e \<noteq> []))"

text \<open>A reading of the date map of \<open>verifyNoDoubleheaders\<close>: the number of
  indices stored for a team on a date, and the association lists having
  distinct keys.\<close>

definition lenAt :: "dateMap \<Rightarrow> team \<Rightarrow> nat" where
  "lenAt dm t = (case map_of dm t of None \<Rightarrow> 0 | Some ixs \<Rightarrow> length ixs)"

definition countAt :: "(string \<times> dateMap) list \<Rightarrow> string \<Rightarrow> team \<Rightarrow> nat" where
  "countAt tbd d t = (case map_of tbd d of None \<Rightarrow> 0 | Some dm \<Rightarrow> lenAt dm t)"

definition wfDateMaps :: "(string \<times> dateMap) list \<Rightarrow> bool" where
  "wfDateMaps tbd = (distinct (map fst tbd)
             \<and> (\<forall>d dm. map_of tbd d = Some dm \<longrightarrow> distinct (map fst dm)))"

section \<open>One input, listed in two orders\<close>




section \<open>Facts about the helpers\<close>

lemma length_insortBy: "length (insortBy cmp x ys) = Suc (length ys)"
  by (induction ys) auto

lemma length_sortBy: "length (sortBy cmp xs) = length xs"
  by (induction xs) (auto simp: sortBy_def length_insortBy)

lemma update_not_Nil: "AList.update k v m \<noteq> []"
  by (cases m) auto

section \<open>Fairness rating\<close>

lemma slotCounts_not_Nil:
  "counts \<noteq> [] \<or> (\<exists>g\<in>set gs. slot g = s) \<Longrightarrow> slotCounts s gs counts \<noteq> []"
  by (induction gs arbitrary: counts) (auto simp: bump_def update_not_Nil)

lemma distribution_not_Nil:
  assumes "\<exists>g\<in>set gs. slot g = s"
  shows "map snd (summarizeSlotDistribution lc gs s) \<noteq> []"
proof -
  have "slotCounts s gs [] \<noteq> []" using assms slotCounts_not_Nil by blast
  then have "length (summarizeSlotDistribution lc gs s) \<noteq> 0"
    by (simp add: summarizeSlotDistribution_def length_sortBy)
  then show ?thesis by simp
qed

lemma rateCounts_rating:
  assumes "cs \<noteq> []"
  shows "frange (rateCounts cs) = Max (set cs) - Min (set cs)
     \<and> (rating (rateCounts cs) = ''Perfect'' \<longleftrightarrow> frange (rateCounts cs) = 0)
     \<and> (rating (rateCounts cs) = ''Excellent'' \<longleftrightarrow> frange (rateCounts cs) = 1)
     \<and> (rating (rateCounts cs) = ''Good'' \<longleftrightarrow> frange (rateCounts cs) = 2)
     \<and> (rating (rateCounts cs) = ''Fair'' \<longleftrightarrow> frange (rateCounts cs) = 3)
     \<and> (rating (rateCounts cs) = ''Poor'' \<longleftrightarrow> frange (rateCounts cs) \<ge> 4)
     \<and> (fair (rateCounts cs) \<longleftrightarrow> frange (rateCounts cs) < 3)"
proof -
  define d where "d = Max (set cs) - Min (set cs)"
  have d0: "0 \<le> d" using assms by (simp add: d_def)
  have r: "rateCounts cs =
     (if d = 0 then \<lparr>rating = ''Perfect'', frange = d, fmin = Min (set cs), fmax = Max (set cs), fair = True\<rparr>
      else if d = 1 then \<lparr>rating = ''Excellent'', frange = d, fmin = Min (set cs), fmax = Max (set cs), fair = True\<rparr>
      else if d = 2 then \<lparr>rating = ''Good'', frange = d, fmin = Min (set cs), fmax = Max (set cs), fair = True\<rparr>
      else if d = 3 then \<lparr>rating = ''Fair'', frange = d, fmin = Min (set cs), fmax = Max (set cs), fair = False\<rparr>
      else \<lparr>rating = ''Poor'', frange = d, fmin = Min (set cs), fmax = Max (set cs), fair = False\<rparr>)"
    using assms by (simp add: rateCounts_def Let_def d_def)
  show ?thesis unfolding d_def[symmetric] r using d0 by auto
qed

text \<open>
  C9, as stated, fails: a non-empty game list with no game in the given slot
  label has an empty distribution, and \<open>computeSlotFairness\<close> answers
  \<open>N/A\<close> with range 0, not \<open>Perfect\<close>.
\<close>

theorem fairness_no_game_in_slot:
  "oneAfternoonGame \<noteq> []
   \<and> frange (computeSlotFairness compareStrings oneAfternoonGame evening) = 0
   \<and> rating (computeSlotFairness compareStrings oneAfternoonGame evening) = ''N/A''
   \<and> rating (computeSlotFairness compareStrings oneAfternoonGame evening) \<noteq> ''Perfect''"
  by (simp add: oneAfternoonGame_def mkGame_def evening_def afternoon_def
      computeSlotFairness_def summarizeSlotDistribution_def sortBy_def rateCounts_def)

text \<open>
  C9, amended: for every game list with at least one game in the given slot
  label, the range returned by \<open>computeSlotFairness\<close> is the maximum minus
  the minimum of the per-team counts in that slot, and the rating is
  \<open>Perfect\<close> exactly when the range is 0, \<open>Excellent\<close> when 1, \<open>Good\<close>
  when 2, \<open>Fair\<close> when 3, \<open>Poor\<close> when at least 4; \<open>fair\<close> holds exactly
  when the range is below 3.  The counts 5,5,5,5 rate \<open>Perfect\<close>, 5,5,5,6
  rate \<open>Excellent\<close>, and 4,5,6,7 rate \<open>Fair\<close> with \<open>fair\<close> false.
\<close>

theorem computeSlotFairness_rating:
  assumes "\<exists>g\<in>set gs. slot g = s"
  shows "frange (computeSlotFairness lc gs s)
           = Max (set (map snd (summarizeSlotDistribution lc gs s)))
             - Min (set (map snd (summarizeSlotDistribution lc gs s)))
     \<and> (rating (computeSlotFairness lc gs s) = ''Perfect''
          \<longleftrightarrow> frange (computeSlotFairness lc gs s) = 0)
     \<and> (rating (computeSlotFairness lc gs s) = ''Excellent''
          \<longleftrightarrow> frange (computeSlotFairness lc gs s) = 1)
     \<and> (rating (computeSlotFairness lc gs s) = ''Good''
          \<longleftrightarrow> frange (computeSlotFairness lc gs s) = 2)
     \<and> (rating (computeSlotFairness lc gs s) = ''Fair''
          \<longleftrightarrow> frange (computeSlotFairness lc gs s) = 3)
     \<and> (rating (computeSlotFairness lc gs s) = ''Poor''
          \<longleftrightarrow> frange (computeSlotFairness lc gs s) \<ge> 4)
     \<and> (fair (computeSlotFairness lc gs s)
          \<longleftrightarrow> frange (computeSlotFairness lc gs s) < 3)
     \<and> rating (rateCounts [5, 5, 5, 5]) = ''Perfect''
     \<and> rating (rateCounts [5, 5, 5, 6]) = ''Excellent''
     \<and> rating (rateCounts [4, 5, 6, 7]) = ''Fair'' \<and> \<not> fair (rateCounts [4, 5, 6, 7])"
proof -
  have ex: "rating (rateCounts [5, 5, 5, 5]) = ''Perfect''
     \<and> rating (rateCounts [5, 5, 5, 6]) = ''Excellent''
     \<and> rating (rateCounts [4, 5, 6, 7]) = ''Fair'' \<and> \<not> fair (rateCounts [4, 5, 6, 7])"
    by (simp add: rateCounts_def Let_def)
  from rateCounts_rating[OF distribution_not_Nil[OF assms, of lc]] ex
  show ?thesis unfolding computeSlotFairness_def by blast
qed

theorem computeSlotFairness_rating_witness:
  "(\<exists>g\<in>set twoEveningGames. slot g = evening)
   \<and> summarizeSlotDistribution compareStrings twoEveningGames evening
       = [(''A'', 2), (''B'', 1), (''C'', 1)]
   \<and> frange (computeSlotFairness compareStrings twoEveningGames evening) = 1
   \<and> rating (computeSlotFairness compareStrings twoEveningGames evening) = ''Excellent''
   \<and> fair (computeSlotFairness compareStrings twoEveningGames evening)"
proof -
  have h: "\<exists>g\<in>set twoEveningGames. slot g = evening"
    by (simp add: twoEveningGames_def mkGame_def)
  have d: "summarizeSlotDistribution compareStrings twoEveningGames evening
       = [(''A'', 2), (''B'', 1), (''C'', 1)]"
    by (simp add: twoEveningGames_def mkGame_def evening_def summarizeSlotDistribution_def
        sortBy_def bump_def getOr0_def or0_def)
  from computeSlotFairness_rating[OF h, of compareStrings] h d show ?thesis by simp
qed

section \<open>Generator range\<close>

lemma rngNext_range: "0 \<le> fst (rngNext t) \<and> fst (rngNext t) < 1"
proof -
  obtain w :: "32 word" where w: "fst (rngNext t) = unsigned w / 4294967296"
    by (simp add: rngNext_def Let_def)
  have "uint w < 2 ^ 32" using uint_bounded[of w] by simp
  then have "(of_int (uint w) :: rat) < of_int (2 ^ 32)" by (simp only: of_int_less_iff)
  then have "(unsigned w :: rat) < 4294967296" by simp
  moreover have "(of_int 0 :: rat) \<le> of_int (uint w)" by (simp only: of_int_le_iff uint_ge_0)
  then have "(0 :: rat) \<le> unsigned w" by simp
  ultimately show ?thesis unfolding w by simp
qed

lemma pickIndex_less: "0 < n \<Longrightarrow> pickIndex (fst (rngNext t)) n < n"
proof -
  assume n: "0 < n"
  let ?v = "fst (rngNext t)"
  have v: "0 \<le> ?v" "?v < 1" using rngNext_range[of t] by auto
  have "?v * of_nat n < of_int (int n)" using v n by simp
  then have lt: "\<lfloor>?v * of_nat n\<rfloor> < int n" by (simp only: floor_less_iff)
  have ge: "0 \<le> \<lfloor>?v * of_nat n\<rfloor>" using v by simp
  from lt ge show ?thesis unfolding pickIndex_def by (simp only: nat_less_iff)
qed

lemma pickIndex_one [simp]: "pickIndex (fst (rngNext t)) (Suc 0) = 0"
  using pickIndex_less[of 1 t] by simp

section \<open>Home/away optimizer\<close>

lemma set_insortBy: "set (insortBy cmp x ys) = insert x (set ys)"
  by (induction ys) auto

lemma set_sortBy: "set (sortBy cmp xs) = set xs"
  by (induction xs) (auto simp: sortBy_def set_insortBy)

lemma sum_list_zeros: "\<forall>x\<in>set xs. f x = (0::int) \<Longrightarrow> sum_list (map f xs) = 0"
  by (induction xs) auto

lemma sum_list_pos_member:
  "\<forall>x\<in>set xs. (0::int) \<le> f x \<Longrightarrow> y \<in> set xs \<Longrightarrow> 0 < f y \<Longrightarrow> 0 < sum_list (map f xs)"
proof (induction xs)
  case Nil
  then show ?case by simp
next
  case (Cons x xs)
  have "0 \<le> sum_list (map f xs)" using Cons.prems(1) by (intro sum_list_nonneg) auto
  then show ?case using Cons by (cases "y = x") (auto simp: add_pos_nonneg add_nonneg_pos)
qed

lemma bump_map_of: "map_of (bump k m) = (map_of m)(k \<mapsto> or0 (map_of m k) + 1)"
  by (simp add: bump_def getOr0_def update_conv')

lemma getOr0_bump: "getOr0 (bump k m) t = (if t = k then getOr0 m k + 1 else getOr0 m t)"
  by (simp add: getOr0_def bump_map_of or0_def)

lemma homeAwayCounts_counts:
  "getOr0 (fst (homeAwayCounts gs (hc, ac))) t
     = getOr0 hc t + int (length (filter (\<lambda>g. home g = t) gs))
   \<and> getOr0 (snd (homeAwayCounts gs (hc, ac))) t
     = getOr0 ac t + int (length (filter (\<lambda>g. away g = t) gs))"
  by (induction gs arbitrary: hc ac) (auto simp: getOr0_bump)

text \<open>The balance map holds, for each of its teams, the number of home games,
  the number of away games and the absolute difference.\<close>

lemma balance_diff:
  assumes "(t, b) \<in> set (computeHomeAwayBalance gs)"
  shows "diff b = \<bar>int (length (filter (\<lambda>g. home g = t) gs))
                   - int (length (filter (\<lambda>g. away g = t) gs))\<bar>"
proof -
  obtain hc ac where h: "homeAwayCounts gs ([], []) = (hc, ac)"
    by (cases "homeAwayCounts gs ([], [])")
  from homeAwayCounts_counts[of gs "[]" "[]" t] h
  have "getOr0 hc t = int (length (filter (\<lambda>g. home g = t) gs))"
       "getOr0 ac t = int (length (filter (\<lambda>g. away g = t) gs))"
    by (simp_all add: getOr0_def or0_def)
  then show ?thesis using assms h by (auto simp: computeHomeAwayBalance_def Let_def)
qed

lemma optLoop_stop:
  "\<not> int flips < maxFlips \<Longrightarrow> optLoop gl maxFlips gs flips t = (gs, flips)"
  by (subst optLoop.simps) simp

lemma optLoop_balanced:
  "sum_list (map (\<lambda>tb. diff (snd tb)) (computeHomeAwayBalance gs)) = 0
   \<Longrightarrow> optLoop gl maxFlips gs flips t = (gs, flips)"
  by (subst optLoop.simps) (simp add: Let_def)

lemma firstFlippable_None:
  "firstFlippable gl b gs ts = None
     \<longleftrightarrow> (\<forall>tb\<in>set ts. candidates gl b gs (fst tb) (snd tb) = [])"
  by (induction ts) (auto simp: Let_def)

lemma firstFlippable_first:
  assumes "\<forall>p\<in>set pre. candidates gl b gs (fst p) (snd p) = []"
    and "candidates gl b gs (fst tb) (snd tb) \<noteq> []"
  shows "firstFlippable gl b gs (pre @ tb # post) = Some (candidates gl b gs (fst tb) (snd tb))"
  using assms by (induction pre) (auto simp: Let_def)

lemma optLoop_stall:
  assumes "firstFlippable gl (computeHomeAwayBalance gs) gs
             (imbalancedTeams (computeHomeAwayBalance gs)) = None"
  shows "optLoop gl maxFlips gs flips t = (gs, flips)"
  by (subst optLoop.simps) (simp add: Let_def assms)

lemma optLoop_flip:
  assumes "int flips < maxFlips"
    and "sum_list (map (\<lambda>tb. diff (snd tb)) (computeHomeAwayBalance gs)) \<noteq> 0"
    and "firstFlippable gl (computeHomeAwayBalance gs) gs
             (imbalancedTeams (computeHomeAwayBalance gs)) = Some cands"
  shows "optLoop gl maxFlips gs flips t =
     optLoop gl maxFlips
       (gs[cands ! pickIndex (fst (rngNext t)) (length cands)
             := flipGame (gs ! (cands ! pickIndex (fst (rngNext t)) (length cands)))])
       (flips + 1) (snd (rngNext t))"
proof -
  have "imbalancedTeams (computeHomeAwayBalance gs) \<noteq> []"
    using assms(3) by auto
  then show ?thesis
    using assms by (subst optLoop.simps) (simp add: Let_def)
qed

lemma imbalanced_total:
  assumes "tb \<in> set (imbalancedTeams (computeHomeAwayBalance gs))"
  shows "sum_list (map (\<lambda>tb. diff (snd tb)) (computeHomeAwayBalance gs)) \<noteq> 0"
proof -
  have m: "tb \<in> set (computeHomeAwayBalance gs)" and p: "0 < diff (snd tb)"
    using assms by (auto simp: imbalancedTeams_def set_sortBy)
  have "\<forall>x\<in>set (computeHomeAwayBalance gs). 0 \<le> diff (snd x)"
    using balance_diff[of _ _ gs] by (metis abs_ge_zero prod.collapse)
  from sum_list_pos_member[OF this m p] show ?thesis by simp
qed

lemmas example_simps = mkGame_def evening_def afternoon_def bump_def getOr0_def or0_def
  sortBy_def Let_def

lemma pinned_balance:
  "computeHomeAwayBalance pinnedGames =
     [(''B'', \<lparr>bhome = 1, baway = 0, diff = 1\<rparr>), (''C'', \<lparr>bhome = 1, baway = 0, diff = 1\<rparr>),
      (''E'', \<lparr>bhome = 1, baway = 0, diff = 1\<rparr>), (''A'', \<lparr>bhome = 0, baway = 2, diff = 2\<rparr>),
      (''D'', \<lparr>bhome = 0, baway = 1, diff = 1\<rparr>)]"
  by (simp add: pinnedGames_def computeHomeAwayBalance_def example_simps)

lemma pinned_imbalanced:
  "imbalancedTeams (computeHomeAwayBalance pinnedGames) =
     [(''A'', \<lparr>bhome = 0, baway = 2, diff = 2\<rparr>), (''B'', \<lparr>bhome = 1, baway = 0, diff = 1\<rparr>),
      (''C'', \<lparr>bhome = 1, baway = 0, diff = 1\<rparr>), (''E'', \<lparr>bhome = 1, baway = 0, diff = 1\<rparr>),
      (''D'', \<lparr>bhome = 0, baway = 1, diff = 1\<rparr>)]"
  by (simp add: pinned_balance imbalancedTeams_def example_simps)

lemma pinned_candidates:
  "candidates pinnedLocks (computeHomeAwayBalance pinnedGames) pinnedGames ''A''
      \<lparr>bhome = 0, baway = 2, diff = 2\<rparr> = []"
  "candidates pinnedLocks (computeHomeAwayBalance pinnedGames) pinnedGames ''B''
      \<lparr>bhome = 1, baway = 0, diff = 1\<rparr> = []"
  "candidates pinnedLocks (computeHomeAwayBalance pinnedGames) pinnedGames ''C''
      \<lparr>bhome = 1, baway = 0, diff = 1\<rparr> = []"
  "candidates pinnedLocks (computeHomeAwayBalance pinnedGames) pinnedGames ''E''
      \<lparr>bhome = 1, baway = 0, diff = 1\<rparr> = [2]"
  unfolding pinned_balance
  by (simp_all add: candidates_def flipHelps_def pinnedGames_def pinnedLocks_def
      truthy_def example_simps upt_rec)

lemma pinned_gameLocks:
  "filter (\<lambda>(slotIndex, l). slotIndex < length pinnedGames) pinnedLocks = pinnedLocks"
  by (simp add: pinnedGames_def pinnedLocks_def)

text \<open>
  C6, as stated, fails.  In \<open>pinnedGames\<close> the most imbalanced team is A
  (two away games, none at home) and both of its games are pinned, so A has
  no eligible flip; the optimizer goes on to B, C and then E, flips E's game
  and returns one flip.
\<close>

theorem optimizer_tries_next_team:
  "fst (hd (imbalancedTeams (computeHomeAwayBalance pinnedGames))) = ''A''
   \<and> candidates pinnedLocks (computeHomeAwayBalance pinnedGames) pinnedGames ''A''
        (snd (hd (imbalancedTeams (computeHomeAwayBalance pinnedGames)))) = []
   \<and> optimizeHomeAwayBalance pinnedGames pinnedLocks ''s'' 1 =
       ([mkGame ''03/01/2026'' evening ''A'' ''B'', mkGame ''03/08/2026'' evening ''A'' ''C'',
         mkGame ''03/15/2026'' evening ''E'' ''D''], 1)
   \<and> optimizeHomeAwayBalance pinnedGames pinnedLocks ''s'' 1 \<noteq> (pinnedGames, 0)"
proof -
  have ff: "firstFlippable pinnedLocks (computeHomeAwayBalance pinnedGames) pinnedGames
     (imbalancedTeams (computeHomeAwayBalance pinnedGames)) = Some [2]"
    unfolding pinned_imbalanced by (simp add: pinned_candidates)
  have ne: "sum_list (map (\<lambda>tb. diff (snd tb)) (computeHomeAwayBalance pinnedGames)) \<noteq> 0"
    by (simp add: pinned_balance)
  have "optLoop pinnedLocks 1 pinnedGames 0 (createSeededRng ''s'')
      = optLoop pinnedLocks 1 (pinnedGames[2 := flipGame (pinnedGames ! 2)]) 1
          (snd (rngNext (createSeededRng ''s'')))"
    using optLoop_flip[OF _ ne ff, of 0 1 "createSeededRng ''s''"] by simp
  also have "\<dots> = (pinnedGames[2 := flipGame (pinnedGames ! 2)], 1)"
    by (rule optLoop_stop) simp
  finally have r: "optimizeHomeAwayBalance pinnedGames pinnedLocks ''s'' 1 =
       ([mkGame ''03/01/2026'' evening ''A'' ''B'', mkGame ''03/08/2026'' evening ''A'' ''C'',
         mkGame ''03/15/2026'' evening ''E'' ''D''], 1)"
    by (simp add: optimizeHomeAwayBalance_def pinned_gameLocks)
       (simp add: pinnedGames_def flipGame_def mkGame_def)
  show ?thesis unfolding r by (simp add: pinned_imbalanced pinned_candidates)
qed

text \<open>
  C6, amended: whenever no imbalanced team has an eligible flip, the optimizer
  stops without error and returns the games as they stand and the flip count
  accumulated so far.  When teams earlier in the descending order of imbalance
  have no eligible flip and a later one has, and the flip budget is not used
  up, a game of the first team that has one is flipped (the candidate chosen
  by the generator) and the loop goes on with one more flip.
\<close>

theorem optimizer_stops_when_no_team_can_flip:
  "((\<forall>tb\<in>set (imbalancedTeams (computeHomeAwayBalance gs)).
        candidates gl (computeHomeAwayBalance gs) gs (fst tb) (snd tb) = [])
      \<longrightarrow> optLoop gl maxFlips gs flips t = (gs, flips))
   \<and> (int flips < maxFlips
        \<and> imbalancedTeams (computeHomeAwayBalance gs) = pre @ tb # post
        \<and> (\<forall>p\<in>set pre. candidates gl (computeHomeAwayBalance gs) gs (fst p) (snd p) = [])
        \<and> candidates gl (computeHomeAwayBalance gs) gs (fst tb) (snd tb) = cands
        \<and> cands \<noteq> []
      \<longrightarrow> optLoop gl maxFlips gs flips t =
            optLoop gl maxFlips
              (gs[cands ! pickIndex (fst (rngNext t)) (length cands)
                   := flipGame (gs ! (cands ! pickIndex (fst (rngNext t)) (length cands)))])
              (flips + 1) (snd (rngNext t)))"
proof (intro conjI impI)
  assume "\<forall>tb\<in>set (imbalancedTeams (computeHomeAwayBalance gs)).
        candidates gl (computeHomeAwayBalance gs) gs (fst tb) (snd tb) = []"
  then show "optLoop gl maxFlips gs flips t = (gs, flips)"
    by (intro optLoop_stall) (simp add: firstFlippable_None)
next
  assume a: "int flips < maxFlips
        \<and> imbalancedTeams (computeHomeAwayBalance gs) = pre @ tb # post
        \<and> (\<forall>p\<in>set pre. candidates gl (computeHomeAwayBalance gs) gs (fst p) (snd p) = [])
        \<and> candidates gl (computeHomeAwayBalance gs) gs (fst tb) (snd tb) = cands
        \<and> cands \<noteq> []"
  then have ff: "firstFlippable gl (computeHomeAwayBalance gs) gs
      (imbalancedTeams (computeHomeAwayBalance gs)) = Some cands"
    using firstFlippable_first[of pre gl "computeHomeAwayBalance gs" gs tb post] by auto
  have "tb \<in> set (imbalancedTeams (computeHomeAwayBalance gs))" using a by simp
  from optLoop_flip[OF _ imbalanced_total[OF this] ff] a
  show "optLoop gl maxFlips gs flips t =
            optLoop gl maxFlips
              (gs[cands ! pickIndex (fst (rngNext t)) (length cands)
                   := flipGame (gs ! (cands ! pickIndex (fst (rngNext t)) (length cands)))])
              (flips + 1) (snd (rngNext t))"
    by simp
qed

theorem optimizer_stops_when_no_team_can_flip_witness:
  "map (\<lambda>tb. candidates pinnedLocks (computeHomeAwayBalance (take 2 pinnedGames))
             (take 2 pinnedGames) (fst tb) (snd tb))
       (imbalancedTeams (computeHomeAwayBalance (take 2 pinnedGames))) = [[], [], []]
   \<and> optLoop pinnedLocks 100 (take 2 pinnedGames) 0 (createSeededRng ''s'')
       = (take 2 pinnedGames, 0)
   \<and> optLoop pinnedLocks 1 pinnedGames 0 (createSeededRng ''s'') =
       optLoop pinnedLocks 1 (pinnedGames[2 := flipGame (pinnedGames ! 2)]) 1
         (snd (rngNext (createSeededRng ''s'')))"
proof -
  have b2: "computeHomeAwayBalance (take 2 pinnedGames) =
     [(''B'', \<lparr>bhome = 1, baway = 0, diff = 1\<rparr>), (''C'', \<lparr>bhome = 1, baway = 0, diff = 1\<rparr>),
      (''A'', \<lparr>bhome = 0, baway = 2, diff = 2\<rparr>)]"
    by (simp add: pinnedGames_def computeHomeAwayBalance_def example_simps)
  have i2: "imbalancedTeams (computeHomeAwayBalance (take 2 pinnedGames)) =
     [(''A'', \<lparr>bhome = 0, baway = 2, diff = 2\<rparr>), (''B'', \<lparr>bhome = 1, baway = 0, diff = 1\<rparr>),
      (''C'', \<lparr>bhome = 1, baway = 0, diff = 1\<rparr>)]"
    by (simp add: b2 imbalancedTeams_def example_simps)
  have h1: "\<forall>tb\<in>set (imbalancedTeams (computeHomeAwayBalance (take 2 pinnedGames))).
        candidates pinnedLocks (computeHomeAwayBalance (take 2 pinnedGames)) (take 2 pinnedGames)
          (fst tb) (snd tb) = []"
    unfolding i2 b2
    by (simp add: candidates_def flipHelps_def pinnedGames_def pinnedLocks_def truthy_def
        example_simps upt_rec)
  have s1: "optLoop pinnedLocks 100 (take 2 pinnedGames) 0 (createSeededRng ''s'')
       = (take 2 pinnedGames, 0)"
    using optimizer_stops_when_no_team_can_flip
      [where gs = "take 2 pinnedGames" and gl = pinnedLocks and maxFlips = 100 and flips = 0
         and t = "createSeededRng ''s''"] h1
    by blast
  have s2: "optLoop pinnedLocks 1 pinnedGames 0 (createSeededRng ''s'') =
       optLoop pinnedLocks 1 (pinnedGames[2 := flipGame (pinnedGames ! 2)]) 1
         (snd (rngNext (createSeededRng ''s'')))"
    using optimizer_stops_when_no_team_can_flip
      [where gs = pinnedGames and gl = pinnedLocks and maxFlips = 1 and flips = 0
         and t = "createSeededRng ''s''"
         and pre = "[(''A'', \<lparr>bhome = 0, baway = 2, diff = 2\<rparr>),
                     (''B'', \<lparr>bhome = 1, baway = 0, diff = 1\<rparr>),
                     (''C'', \<lparr>bhome = 1, baway = 0, diff = 1\<rparr>)]"
         and tb = "(''E'', \<lparr>bhome = 1, baway = 0, diff = 1\<rparr>)"
         and post = "[(''D'', \<lparr>bhome = 0, baway = 1, diff = 1\<rparr>)]"
         and cands = "[2]"]
    by (simp add: pinned_imbalanced pinned_candidates)
  have h2: "map (\<lambda>tb. candidates pinnedLocks (computeHomeAwayBalance (take 2 pinnedGames))
             (take 2 pinnedGames) (fst tb) (snd tb))
       (imbalancedTeams (computeHomeAwayBalance (take 2 pinnedGames))) = [[], [], []]"
    using h1 by (simp add: i2)
  from h2 s1 s2 show ?thesis by simp
qed

text \<open>
  C8: when every team has as many home games as away games, the optimizer
  returns its input unchanged, with no flip.
\<close>

theorem optimize_balanced_unchanged:
  assumes "\<forall>t. length (filter (\<lambda>g. home g = t) gs) = length (filter (\<lambda>g. away g = t) gs)"
  shows "optimizeHomeAwayBalance gs lockRequirements sd maxFlips = (gs, 0)"
proof -
  have "\<forall>tb\<in>set (computeHomeAwayBalance gs). diff (snd tb) = 0"
    using balance_diff[of _ _ gs] assms by auto
  then have "sum_list (map (\<lambda>tb. diff (snd tb)) (computeHomeAwayBalance gs)) = 0"
    by (rule sum_list_zeros)
  then show ?thesis
    by (simp add: optimizeHomeAwayBalance_def optLoop_balanced)
qed

theorem optimize_balanced_unchanged_witness:
  "(\<forall>t. length (filter (\<lambda>g. home g = t) balancedGames)
        = length (filter (\<lambda>g. away g = t) balancedGames))
   \<and> balancedGames \<noteq> []
   \<and> optimizeHomeAwayBalance balancedGames pinnedLocks ''s'' 100 = (balancedGames, 0)"
proof -
  have h: "\<forall>t. length (filter (\<lambda>g. home g = t) balancedGames)
        = length (filter (\<lambda>g. away g = t) balancedGames)"
    by (auto simp: balancedGames_def mkGame_def)
  from optimize_balanced_unchanged[OF h, of pinnedLocks "''s''" 100] h
  show ?thesis by (simp add: balancedGames_def)
qed

section \<open>Slot assigner\<close>

lemma scanPairs_best:
  "set best \<subseteq> S \<Longrightarrow>
   set (fst (snd (scanPairs a xs (bs, best, t))))
     \<subseteq> S \<union> {k. \<exists>e. (k, e) \<in> set xs \<and> rejectedBy a e = None}"
proof (induction xs arbitrary: bs best t S)
  case Nil
  then show ?case by simp
next
  case (Cons x xs)
  obtain k e where x: "x = (k, e)" by (cases x)
  show ?case
  proof (cases "rejectedBy a e = None")
    case False
    then show ?thesis using Cons.IH[OF Cons.prems, of bs t] x by auto
  next
    case True
    let ?S = "insert k S"
    have 1: "set [k] \<subseteq> ?S" "set (best @ [k]) \<subseteq> ?S" "set best \<subseteq> ?S"
      using Cons.prems by auto
    have sub: "?S \<union> {k. \<exists>e. (k, e) \<in> set xs \<and> rejectedBy a e = None}
        \<subseteq> S \<union> {k. \<exists>e. (k, e) \<in> set (x # xs) \<and> rejectedBy a e = None}"
      using True x by auto
    have "set (fst (snd (scanPairs a xs (bs', best', t')))) 
        \<subseteq> S \<union> {k. \<exists>e. (k, e) \<in> set (x # xs) \<and> rejectedBy a e = None}"
      if "set best' \<subseteq> ?S" for bs' best' t'
      using Cons.IH[OF that, of bs' t'] sub by blast
    then show ?thesis
      using 1 True x by (simp add: Let_def)
  qed
qed

lemma selectPair_eligible:
  assumes "fst (selectPair a) = Some k"
  shows "k < length (pairs a) \<and> rejectedBy a (pairs a ! k) = None"
proof -
  obtain bs best t where sc: "scanPairs a (enumerate 0 (pairs a)) (NegInfinity, [], rng a) = (bs, best, t)"
    by (cases "scanPairs a (enumerate 0 (pairs a)) (NegInfinity, [], rng a)") auto
  have ne: "best \<noteq> []" and k: "k = best ! pickIndex (fst (rngNext t)) (length best)"
    using assms sc by (auto simp: selectPair_def split: if_splits)
  have "pickIndex (fst (rngNext t)) (length best) < length best"
    using ne by (intro pickIndex_less) simp
  then have "k \<in> set best" using k by simp
  moreover have "set best \<subseteq> {} \<union> {k. \<exists>e. (k, e) \<in> set (enumerate 0 (pairs a)) \<and> rejectedBy a e = None}"
    using scanPairs_best[of "[]" "{}" a "enumerate 0 (pairs a)" NegInfinity "rng a"] sc by simp
  ultimately obtain e where "(k, e) \<in> set (enumerate 0 (pairs a))" "rejectedBy a e = None" by auto
  then show ?thesis by (auto simp: in_set_enumerate_eq)
qed

lemma rejectedBy_None:
  assumes "rejectedBy a e = None"
  shows "0 < remaining e"
    and "forced a \<Longrightarrow> set (the (required a)) \<subseteq> {teamA e, teamB e}"
    and "teamA e \<notin> teamsPlayedToday a" and "teamB e \<notin> teamsPlayedToday a"
  using assms by (auto simp: rejectedBy_def Let_def list_all_iff split: if_splits)








text \<open>
  C5, as stated, fails: in a slot that is not the target slot, an unforced
  pair is rejected by the would-exceed-max filter when a team's target count
  is already above the maximum.
\<close>

theorem wouldExceed_outside_target_slot:
  "\<not> isTargetSlot overMaxArgs \<and> \<not> forced overMaxArgs
   \<and> rejectedBy overMaxArgs (mkEntry ''A'' ''B'' 1) = Some wouldExceed
   \<and> selectPair overMaxArgs = (None, rng overMaxArgs)"
  by (simp add: overMaxArgs_def mkEntry_def rejectedBy_def forced_def projectedExcess_def
      or0_def Let_def selectPair_def enumerate_eq_zip)

text \<open>
  C5, amended: for an unforced pair in a slot that is not the target slot, the
  would-exceed-max filter rejects the pair exactly when the pair passes the
  earlier filters and the current target count of one of its teams is already
  above the maximum; it never rejects while both counts are at most the
  maximum.  In the target slot the same holds with each count increased by
  one.
\<close>

theorem wouldExceed_iff:
  assumes "\<not> forced a"
  shows "(rejectedBy a e = Some wouldExceed \<longleftrightarrow>
           0 < remaining e
           \<and> teamA e \<notin> teamsPlayedToday a \<and> teamB e \<notin> teamsPlayedToday a
           \<and> (case allLockedTeams a of None \<Rightarrow> True
               | Some locked \<Rightarrow> teamA e \<notin> locked \<and> teamB e \<notin> locked)
           \<and> or0 (teamsThisWeek a (teamA e)) < 2 \<and> or0 (teamsThisWeek a (teamB e)) < 2
           \<and> (or0 (teamTargetCounts a (teamA e)) + (if isTargetSlot a then 1 else 0) > maxTarget a
              \<or> or0 (teamTargetCounts a (teamB e)) + (if isTargetSlot a then 1 else 0) > maxTarget a))
     \<and> (\<not> isTargetSlot a \<and> or0 (teamTargetCounts a (teamA e)) \<le> maxTarget a
          \<and> or0 (teamTargetCounts a (teamB e)) \<le> maxTarget a
        \<longrightarrow> rejectedBy a e \<noteq> Some wouldExceed)"
  using assms
  by (cases "allLockedTeams a") (auto simp: rejectedBy_def projectedExcess_def Let_def)

theorem wouldExceed_iff_witness:
  "\<not> forced overMaxArgs \<and> \<not> isTargetSlot overMaxArgs
   \<and> or0 (teamTargetCounts overMaxArgs ''A'') = 2 \<and> maxTarget overMaxArgs = 1
   \<and> rejectedBy overMaxArgs (mkEntry ''A'' ''B'' 1) = Some wouldExceed
   \<and> or0 (teamTargetCounts overMaxArgs ''B'') \<le> maxTarget overMaxArgs
   \<and> or0 (teamTargetCounts overMaxArgs ''C'') \<le> maxTarget overMaxArgs
   \<and> rejectedBy overMaxArgs (mkEntry ''B'' ''C'' 1) \<noteq> Some wouldExceed"
proof -
  have f: "\<not> forced overMaxArgs" by (simp add: overMaxArgs_def forced_def)
  have v: "\<not> isTargetSlot overMaxArgs" "or0 (teamTargetCounts overMaxArgs ''A'') = 2"
    "maxTarget overMaxArgs = 1" "or0 (teamTargetCounts overMaxArgs ''B'') \<le> maxTarget overMaxArgs"
    "or0 (teamTargetCounts overMaxArgs ''C'') \<le> maxTarget overMaxArgs"
    "teamsPlayedToday overMaxArgs = {}" "allLockedTeams overMaxArgs = None"
    "teamsThisWeek overMaxArgs = Map.empty"
    by (simp_all add: overMaxArgs_def or0_def)
  from wouldExceed_iff[OF f, of "mkEntry ''A'' ''B'' 1"]
       wouldExceed_iff[OF f, of "mkEntry ''B'' ''C'' 1"] f v
  show ?thesis by (simp add: mkEntry_def or0_def)
qed







section \<open>Evaluating a run\<close>

text \<open>The definitions with each intermediate value computed once, for
  evaluating concrete runs.\<close>

lemma fillSlot_eval:
  "fillSlot getWeekKey targetSlot lockRequirements minT maxT allLocked i s st =
     (case selectPair \<lparr>pairs = ledger st, isTargetSlot = (slotLabel s = targetSlot),
                  teamTargetCounts = targetCounts st, minTarget = minT, maxTarget = maxT,
                  teamGamesRemaining = remainingGames st, rng = gen st,
                  required = (case map_of lockRequirements (case index s of None \<Rightarrow> i | Some j \<Rightarrow> j)
                              of None \<Rightarrow> None | Some l \<Rightarrow> Some (requiredTeams l)),
                  teamsPlayedToday = teamsByDate st (sdate s), allLockedTeams = allLocked,
                  teamsThisWeek = teamsByWeek st (getWeekKey (sdate s))\<rparr> of
        (None, t1) \<Rightarrow> None
      | (Some c, t1) \<Rightarrow>
          (case assignGame s (ledger st ! c) t1
                  (map_of lockRequirements (case index s of None \<Rightarrow> i | Some j \<Rightarrow> j))
                  (homeCount st) (awayCount st) of
             (g, t2) \<Rightarrow>
               Some (st\<lparr>
                  ledger := (ledger st)[c := (ledger st ! c)\<lparr>remaining := remaining (ledger st ! c) - 1\<rparr>],
                  assignments := assignments st @ [g],
                  homeCount := addTo (home g) 1 (homeCount st),
                  awayCount := addTo (away g) 1 (awayCount st),
                  teamsByDate := (teamsByDate st)
                     (sdate s := insert (home g) (insert (away g) (teamsByDate st (sdate s)))),
                  teamsByWeek := (teamsByWeek st)
                     (getWeekKey (sdate s) := incr (home g) (incr (away g)
                        (teamsByWeek st (getWeekKey (sdate s))))),
                  remainingGames := addTo (home g) (- 1) (addTo (away g) (- 1) (remainingGames st)),
                  targetCounts := (if slotLabel s = targetSlot
                     then incr (home g) (incr (away g) (targetCounts st)) else targetCounts st),
                  gen := t2\<rparr>)))"
  by (simp add: fillSlot_def Let_def split: prod.splits option.splits)

lemma tryGenerateSchedule_eval:
  "tryGenerateSchedule lc getWeekKey teams slots targetSlot seed gamesPerPair lockRequirements =
     (case computeTargetRange (length teams)
             (length (filter (\<lambda>s. slotLabel s = targetSlot) slots)) of
        (minT, maxT) \<Rightarrow>
          (case fillSlots getWeekKey targetSlot lockRequirements minT maxT
                (lockedTeamsOf lockRequirements) 0 slots
                (initialAttempt lc teams seed gamesPerPair) of
           (Some i, st) \<Rightarrow>
             Failure (NoMatchup (i + 1) (sdate (slots ! i)) (slotLabel (slots ! i))) (Some i)
               (assignments st)
         | (None, st) \<Rightarrow>
             if length (filter (\<lambda>e. remaining e > 0) (ledger st)) > 0 then
               Failure (Unassigned (length (filter (\<lambda>e. remaining e > 0) (ledger st)))) None
                 (assignments st)
             else Success (assignments st) minT maxT (targetCounts st) (homeCount st) (awayCount st)))"
  by (simp add: tryGenerateSchedule_def Let_def split: prod.splits option.splits)

lemma rngNext_eval:
  "rngNext t0 =
     (case imul (of_int (t0 + 1831565813) XOR drop_bit 15 (of_int (t0 + 1831565813)))
                (of_int (t0 + 1831565813) OR 1) of r \<Rightarrow>
        (case r XOR (r + imul (r XOR drop_bit 7 r) (r OR 61)) of r2 \<Rightarrow>
           (of_int (uint (r2 XOR drop_bit 14 r2)) / 4294967296, t0 + 1831565813)))"
  by (simp add: rngNext_def Let_def)

lemma scanPairs_eval:
  "scanPairs a ((k, e) # rest) (bestScore, best, t) =
     (if rejectedBy a e \<noteq> None then scanPairs a rest (bestScore, best, t)
      else
        (case rngNext t of (u, t') \<Rightarrow>
           (case scoreOf a e u of score \<Rightarrow>
        if jsGreater score bestScore then scanPairs a rest (score, [k], t')
        else if jsEqual score bestScore then scanPairs a rest (bestScore, best @ [k], t')
        else scanPairs a rest (bestScore, best, t'))))"
  by (simp add: Let_def split: prod.splits)

lemma selectPair_eval:
  "selectPair a =
     (case scanPairs a (enumerate 0 (pairs a)) (NegInfinity, [], rng a) of
        (bestScore, best, t) \<Rightarrow>
          if length best = 0 then (None, t)
          else (case rngNext t of (u, t') \<Rightarrow> (Some (best ! pickIndex u (length best)), t')))"
  by (simp add: selectPair_def split: prod.splits)

lemma byBalance_eval:
  "byBalance e t hc ac =
     (if \<bar>(or0 (hc (teamA e)) - or0 (ac (teamA e)))
          - (or0 (hc (teamB e)) - or0 (ac (teamB e)))\<bar> > 1 then
           (if or0 (hc (teamA e)) - or0 (ac (teamA e))
               < or0 (hc (teamB e)) - or0 (ac (teamB e))
            then ((teamB e, teamA e), t)
            else ((teamA e, teamB e), t))
      else (case rngNext t of (u, t') \<Rightarrow>
             if u < 1 / 2 then ((teamB e, teamA e), t') else ((teamA e, teamB e), t')))"
  by (simp add: byBalance_def Let_def split: prod.splits)

lemmas run_simps = tryGenerateSchedule_eval fillSlot_eval initialAttempt_def createPairState_def
  computeTargetRange_def lockedTeamsOf_def selectPair_eval scanPairs_eval rejectedBy_def forced_def scoreOf_def
  projectedExcess_def needScore_def or0_def enumerate_eq_zip assignGame_def byBalance_eval
  otherTeam_def truthy_def addTo_def incr_def sortBy_def eveningSlot_def evening_def afternoon_def
  exampleWeekKey_def afternoonSlot_def rngNext_eval imul_def createSeededRng_def hashSeed_def pickIndex_def upt_rec
  mkGame_def Let_def


lemma digitsOf_0: "digitsOf 0 = ''0''"
  by (subst digitsOf.simps) simp

lemmas verify_simps = verifyNoDoubleheaders_def recordGame_def ensureKey_def pushIndex_def
  violationsOf_def mkGame_def Let_def

lemma run_twoSlots:
  "succeeded (tryGenerateSchedule compareStrings exampleWeekKey [''A'', ''B''] twoSlots evening
      ''t1-0'' 2 [])
   \<and> gamesOf (tryGenerateSchedule compareStrings exampleWeekKey [''A'', ''B''] twoSlots evening
      ''t1-0'' 2 []) = balancedGames"
  by (simp add: twoSlots_def balancedGames_def run_simps del: scanPairs.simps(2))

lemma run_sixSlots:
  "succeeded (tryGenerateSchedule compareStrings exampleWeekKey [''A'', ''B'', ''C'', ''D'']
      sixSlots evening ''t1-0'' 1 historicalLocks)
   \<and> gamesOf (tryGenerateSchedule compareStrings exampleWeekKey [''A'', ''B'', ''C'', ''D'']
      sixSlots evening ''t1-0'' 1 historicalLocks) = sixGames"
  by (simp add: sixSlots_def sixGames_def historicalLocks_def sideLock_def run_simps
      del: scanPairs.simps(2))

lemma run_sixSlots_retry:
  "succeeded (tryGenerateSchedule compareStrings exampleWeekKey [''A'', ''B'', ''C'', ''D'']
      sixSlots evening ''t1-1'' 1 historicalLocks)
   \<and> gamesOf (tryGenerateSchedule compareStrings exampleWeekKey [''A'', ''B'', ''C'', ''D'']
      sixSlots evening ''t1-1'' 1 historicalLocks) = sixGamesRetry"
  by (simp add: sixSlots_def sixGamesRetry_def historicalLocks_def sideLock_def run_simps
      del: scanPairs.simps(2))






lemma run_threeSlots:
  "succeeded (tryGenerateSchedule compareStrings exampleWeekKey [''A'', ''B'', ''C'']
      threeSlots evening ''t1-0'' 1 repeatLocks)
   \<and> gamesOf (tryGenerateSchedule compareStrings exampleWeekKey [''A'', ''B'', ''C'']
      threeSlots evening ''t1-0'' 1 repeatLocks)
     = [mkGame ''03/01/2026'' afternoon ''A'' ''B'', mkGame ''03/08/2026'' afternoon ''A'' ''B'',
        mkGame ''03/15/2026'' evening ''B'' ''C'']"
  by (simp add: threeSlots_def repeatLocks_def sideLock_def run_simps del: scanPairs.simps(2))

lemma sixGames_doubleheader:
  "\<not> valid (verifyNoDoubleheaders sixGames)
   \<and> map (\<lambda>v. (vdate v, vteam v, gameCount v)) (violations (verifyNoDoubleheaders sixGames))
       = [(''03/01/2026'', ''B'', 2)]"
  by (simp add: sixGames_def verify_simps)

lemma sixGamesRetry_doubleheader:
  "\<not> valid (verifyNoDoubleheaders sixGamesRetry)
   \<and> map (\<lambda>v. (vdate v, vteam v, gameCount v))
         (violations (verifyNoDoubleheaders sixGamesRetry))
       = [(''03/01/2026'', ''B'', 2)]"
  by (simp add: sixGamesRetry_def verify_simps)

lemma digitsOf_1: "digitsOf (Suc 0) = ''1''"
  by (subst digitsOf.simps) simp

lemma run_teamLocks:
  "succeeded (tryGenerateSchedule compareStrings exampleWeekKey [''A'', ''B'', ''C'', ''D'']
      sixSlots evening ''t1-0'' 1 teamLocks)
   \<and> gamesOf (tryGenerateSchedule compareStrings exampleWeekKey [''A'', ''B'', ''C'', ''D'']
      sixSlots evening ''t1-0'' 1 teamLocks) = teamLockGames"
  by (simp add: sixSlots_def teamLockGames_def teamLocks_def singleLock_def run_simps
      del: scanPairs.simps(2))





lemma balancedGames_valid: "valid (verifyNoDoubleheaders balancedGames)"
  by (simp add: balancedGames_def verify_simps)


section \<open>Retry orchestrator\<close>

lemma attemptLoopWith_success:
  assumes "int attempt < maxAttempts"
    and "tryGenerateSchedule lc gwk teams slots targetSlot (sd @ ''-'' @ digitsOf attempt) gpp
           locks = Success gs mn mx tc hc ac"
  shows "attemptLoopWith optz lc gwk teams slots targetSlot sd gpp maxAttempts locks optimizeHomeAway
           attempt failures =
     (if \<not> valid (verifyNoDoubleheaders gs) then
        attemptLoopWith optz lc gwk teams slots targetSlot sd gpp maxAttempts locks optimizeHomeAway
          (attempt + 1)
          (failures @ [\<lparr>fattempt = attempt + 1,
             freason = Doubleheaders (take 3 (violations (verifyNoDoubleheaders gs))),
             fslotIndex = None, partialGames = gs, fseed = sd @ ''-'' @ digitsOf attempt\<rparr>])
      else if optimizeHomeAway then
        (if \<not> valid (verifyNoDoubleheaders (fst (optz gs locks
                  ((sd @ ''-'' @ digitsOf attempt) @ ''-optimize'') 100)))
         then Inr \<lparr>attemptResult = Success gs mn mx tc hc ac, finalGames = gs,
                   usedSeed = sd @ ''-'' @ digitsOf attempt, attempts = attempt + 1,
                   homeAwayFlips = 0\<rparr>
         else Inr \<lparr>attemptResult = Success gs mn mx tc hc ac,
                   finalGames = fst (optz gs locks
                     ((sd @ ''-'' @ digitsOf attempt) @ ''-optimize'') 100),
                   usedSeed = sd @ ''-'' @ digitsOf attempt, attempts = attempt + 1,
                   homeAwayFlips = snd (optz gs locks
                     ((sd @ ''-'' @ digitsOf attempt) @ ''-optimize'') 100)\<rparr>)
      else Inr \<lparr>attemptResult = Success gs mn mx tc hc ac, finalGames = gs,
                usedSeed = sd @ ''-'' @ digitsOf attempt, attempts = attempt + 1,
                homeAwayFlips = 0\<rparr>)"
  using assms by (subst attemptLoopWith.simps) (simp add: Let_def)

lemma attemptLoopWith_exhausted:
  "\<not> int attempt < maxAttempts \<Longrightarrow> failures \<noteq> [] \<Longrightarrow>
   attemptLoopWith optz lc gwk teams slots targetSlot sd gpp maxAttempts locks optimizeHomeAway
     attempt failures = Inl (Exhausted failures)"
  by (subst attemptLoopWith.simps) simp

text \<open>
  C7: in the attempt loop of \<open>generateBalancedSchedule\<close>, for an attempt
  that succeeds.  When the attempt's game list has a doubleheader, the attempt
  is recorded in \<open>failures\<close> and the loop goes on with the next attempt.
  When it has none and the output of the optimizer has one, that output is
  discarded: the returned schedule is the game list as it was before
  optimization, with \<open>homeAwayFlips = 0\<close>.  When neither has one, the
  returned schedule is the optimizer's output with its flip count.  This
  holds whatever the optimizer returns, in particular for
  \<open>optimizeHomeAwayBalance\<close>.
\<close>

theorem doubleheader_handling:
  assumes "int attempt < maxAttempts"
    and "tryGenerateSchedule lc gwk teams slots targetSlot (sd @ ''-'' @ digitsOf attempt) gpp
           locks = Success gs mn mx tc hc ac"
  shows "(\<not> valid (verifyNoDoubleheaders gs) \<longrightarrow>
            attemptLoopWith optz lc gwk teams slots targetSlot sd gpp maxAttempts locks
              optimizeHomeAway attempt failures =
            attemptLoopWith optz lc gwk teams slots targetSlot sd gpp maxAttempts locks
              optimizeHomeAway (attempt + 1)
              (failures @ [\<lparr>fattempt = attempt + 1,
                 freason = Doubleheaders (take 3 (violations (verifyNoDoubleheaders gs))),
                 fslotIndex = None, partialGames = gs, fseed = sd @ ''-'' @ digitsOf attempt\<rparr>]))
       \<and> (valid (verifyNoDoubleheaders gs)
            \<and> \<not> valid (verifyNoDoubleheaders (fst (optz gs locks
                    ((sd @ ''-'' @ digitsOf attempt) @ ''-optimize'') 100))) \<longrightarrow>
            attemptLoopWith optz lc gwk teams slots targetSlot sd gpp maxAttempts locks True
              attempt failures =
            Inr \<lparr>attemptResult = Success gs mn mx tc hc ac, finalGames = gs,
                 usedSeed = sd @ ''-'' @ digitsOf attempt, attempts = attempt + 1,
                 homeAwayFlips = 0\<rparr>)
       \<and> (valid (verifyNoDoubleheaders gs)
            \<and> valid (verifyNoDoubleheaders (fst (optz gs locks
                  ((sd @ ''-'' @ digitsOf attempt) @ ''-optimize'') 100))) \<longrightarrow>
            attemptLoopWith optz lc gwk teams slots targetSlot sd gpp maxAttempts locks True
              attempt failures =
            Inr \<lparr>attemptResult = Success gs mn mx tc hc ac,
                 finalGames = fst (optz gs locks
                   ((sd @ ''-'' @ digitsOf attempt) @ ''-optimize'') 100),
                 usedSeed = sd @ ''-'' @ digitsOf attempt, attempts = attempt + 1,
                 homeAwayFlips = snd (optz gs locks
                   ((sd @ ''-'' @ digitsOf attempt) @ ''-optimize'') 100)\<rparr>)"
  by (simp add: attemptLoopWith_success[OF assms])

theorem doubleheader_handling_witness:
  "succeeded (tryGenerateSchedule compareStrings exampleWeekKey [''A'', ''B'', ''C'', ''D'']
      sixSlots evening (''t1'' @ ''-'' @ digitsOf 0) 1 historicalLocks)
   \<and> \<not> valid (verifyNoDoubleheaders sixGames)
   \<and> succeeded (tryGenerateSchedule compareStrings exampleWeekKey [''A'', ''B'', ''C'', ''D'']
      sixSlots evening (''t1'' @ ''-'' @ digitsOf 1) 1 historicalLocks)
   \<and> \<not> valid (verifyNoDoubleheaders sixGamesRetry)
   \<and> attemptLoopWith optimizeHomeAwayBalance compareStrings exampleWeekKey
        [''A'', ''B'', ''C'', ''D''] sixSlots evening ''t1'' 1 2 historicalLocks True 0 []
      = Inl (Exhausted
         [\<lparr>fattempt = 1,
           freason = Doubleheaders (take 3 (violations (verifyNoDoubleheaders sixGames))),
           fslotIndex = None, partialGames = sixGames, fseed = ''t1-0''\<rparr>,
          \<lparr>fattempt = 2,
           freason = Doubleheaders (take 3 (violations (verifyNoDoubleheaders sixGamesRetry))),
           fslotIndex = None, partialGames = sixGamesRetry, fseed = ''t1-1''\<rparr>])
   \<and> succeeded (tryGenerateSchedule compareStrings exampleWeekKey [''A'', ''B''] twoSlots
        evening (''t1'' @ ''-'' @ digitsOf 0) 2 [])
   \<and> valid (verifyNoDoubleheaders balancedGames)
   \<and> fst (sameDateOptimizer balancedGames [] ''t1-0-optimize'' 100)
        = [mkGame ''03/01/2026'' evening ''A'' ''B'', mkGame ''03/01/2026'' evening ''B'' ''A'']
   \<and> \<not> valid (verifyNoDoubleheaders (fst (sameDateOptimizer balancedGames []
          ''t1-0-optimize'' 100)))
   \<and> outcome (attemptLoopWith sameDateOptimizer compareStrings exampleWeekKey [''A'', ''B'']
        twoSlots evening ''t1'' 2 20 [] True 0 []) = Some (balancedGames, 0)
   \<and> valid (verifyNoDoubleheaders (fst (flipAllOptimizer balancedGames []
          ''t1-0-optimize'' 100)))
   \<and> outcome (attemptLoopWith flipAllOptimizer compareStrings exampleWeekKey [''A'', ''B'']
        twoSlots evening ''t1'' 2 20 [] True 0 [])
      = Some ([mkGame ''03/01/2026'' evening ''B'' ''A'', mkGame ''03/08/2026'' evening ''A'' ''B''],
              2)
   \<and> outcome (attemptLoopWith optimizeHomeAwayBalance compareStrings exampleWeekKey
        [''A'', ''B''] twoSlots evening ''t1'' 2 20 [] True 0 []) = Some (balancedGames, 0)"
proof -
  obtain mn mx tc hc ac where six:
    "tryGenerateSchedule compareStrings exampleWeekKey [''A'', ''B'', ''C'', ''D'']
       sixSlots evening (''t1'' @ ''-'' @ digitsOf 0) 1 historicalLocks
     = Success sixGames mn mx tc hc ac"
    using run_sixSlots
    by (cases "tryGenerateSchedule compareStrings exampleWeekKey [''A'', ''B'', ''C'', ''D'']
       sixSlots evening ''t1-0'' 1 historicalLocks") (auto simp: digitsOf_0)
  obtain mn1 mx1 tc1 hc1 ac1 where retry:
    "tryGenerateSchedule compareStrings exampleWeekKey [''A'', ''B'', ''C'', ''D'']
       sixSlots evening (''t1'' @ ''-'' @ digitsOf 1) 1 historicalLocks
     = Success sixGamesRetry mn1 mx1 tc1 hc1 ac1"
    using run_sixSlots_retry
    by (cases "tryGenerateSchedule compareStrings exampleWeekKey [''A'', ''B'', ''C'', ''D'']
       sixSlots evening ''t1-1'' 1 historicalLocks") (auto simp: digitsOf_1)
  obtain mn' mx' tc' hc' ac' where two:
    "tryGenerateSchedule compareStrings exampleWeekKey [''A'', ''B''] twoSlots evening
       (''t1'' @ ''-'' @ digitsOf 0) 2 [] = Success balancedGames mn' mx' tc' hc' ac'"
    using run_twoSlots
    by (cases "tryGenerateSchedule compareStrings exampleWeekKey [''A'', ''B''] twoSlots evening
       ''t1-0'' 2 []") (auto simp: digitsOf_0)
  have dh: "\<not> valid (verifyNoDoubleheaders sixGames)" using sixGames_doubleheader by simp
  have dh1: "\<not> valid (verifyNoDoubleheaders sixGamesRetry)"
    using sixGamesRetry_doubleheader by simp
  have a: "attemptLoopWith optimizeHomeAwayBalance compareStrings exampleWeekKey
        [''A'', ''B'', ''C'', ''D''] sixSlots evening ''t1'' 1 2 historicalLocks True 0 []
      = Inl (Exhausted
         [\<lparr>fattempt = 1,
           freason = Doubleheaders (take 3 (violations (verifyNoDoubleheaders sixGames))),
           fslotIndex = None, partialGames = sixGames, fseed = ''t1-0''\<rparr>,
          \<lparr>fattempt = 2,
           freason = Doubleheaders (take 3 (violations (verifyNoDoubleheaders sixGamesRetry))),
           fslotIndex = None, partialGames = sixGamesRetry, fseed = ''t1-1''\<rparr>])"
    using doubleheader_handling[OF _ six, of 2 optimizeHomeAwayBalance True "[]"]
      doubleheader_handling[OF _ retry, of 2 optimizeHomeAwayBalance True
        "[\<lparr>fattempt = 1,
           freason = Doubleheaders (take 3 (violations (verifyNoDoubleheaders sixGames))),
           fslotIndex = None, partialGames = sixGames, fseed = ''t1-0''\<rparr>]"]
      dh dh1
    by (simp add: attemptLoopWith_exhausted digitsOf_0 digitsOf_1)
  have moved: "fst (sameDateOptimizer balancedGames [] ''t1-0-optimize'' 100)
        = [mkGame ''03/01/2026'' evening ''A'' ''B'', mkGame ''03/01/2026'' evening ''B'' ''A'']"
    by (simp add: sameDateOptimizer_def balancedGames_def mkGame_def)
  have bad: "\<not> valid (verifyNoDoubleheaders (fst (sameDateOptimizer balancedGames []
          ''t1-0-optimize'' 100)))"
    unfolding moved by (simp add: verify_simps)
  have flipped: "flipAllOptimizer balancedGames [] ''t1-0-optimize'' 100
        = ([mkGame ''03/01/2026'' evening ''B'' ''A'', mkGame ''03/08/2026'' evening ''A'' ''B''], 2)"
    by (simp add: flipAllOptimizer_def balancedGames_def mkGame_def flipGame_def)
  have good: "valid (verifyNoDoubleheaders (fst (flipAllOptimizer balancedGames []
          ''t1-0-optimize'' 100)))"
    unfolding flipped by (simp add: verify_simps)
  have b: "outcome (attemptLoopWith sameDateOptimizer compareStrings exampleWeekKey [''A'', ''B'']
        twoSlots evening ''t1'' 2 20 [] True 0 []) = Some (balancedGames, 0)"
    using doubleheader_handling[OF _ two, of 20 sameDateOptimizer True "[]"] balancedGames_valid bad
    by (simp add: digitsOf_0 outcome_def)
  have c: "outcome (attemptLoopWith flipAllOptimizer compareStrings exampleWeekKey [''A'', ''B'']
        twoSlots evening ''t1'' 2 20 [] True 0 [])
      = Some ([mkGame ''03/01/2026'' evening ''B'' ''A'', mkGame ''03/08/2026'' evening ''A'' ''B''],
              2)"
    using doubleheader_handling[OF _ two, of 20 flipAllOptimizer True "[]"] balancedGames_valid good
      flipped
    by (simp add: digitsOf_0 outcome_def)
  have bal: "sum_list (map (\<lambda>tb. diff (snd tb)) (computeHomeAwayBalance balancedGames)) = 0"
    by (simp add: balancedGames_def computeHomeAwayBalance_def example_simps)
  have opt: "optimizeHomeAwayBalance balancedGames [] (''t1-0'' @ ''-optimize'') 100
      = (balancedGames, 0)"
    by (simp add: optimizeHomeAwayBalance_def optLoop_balanced[OF bal])
  have d: "outcome (attemptLoopWith optimizeHomeAwayBalance compareStrings exampleWeekKey
        [''A'', ''B''] twoSlots evening ''t1'' 2 20 [] True 0 []) = Some (balancedGames, 0)"
    using doubleheader_handling[OF _ two, of 20 optimizeHomeAwayBalance True "[]"]
      balancedGames_valid opt
    by (simp add: digitsOf_0 outcome_def)
  from six retry two dh dh1 a moved bad b good c d balancedGames_valid show ?thesis by simp
qed

section \<open>Doubleheader check, characterised\<close>

lemma map_of_ensureKey:
  "map_of (ensureKey k v m) = (if map_of m k = None then (map_of m)(k \<mapsto> v) else map_of m)"
  by (simp add: ensureKey_def update_conv')

lemma distinct_ensureKey:
  "distinct (map fst m) \<Longrightarrow> distinct (map fst (ensureKey k v m))"
  by (simp add: ensureKey_def distinct_update)

lemma lenAt_ensureKey: "lenAt (ensureKey k [] dm) t = lenAt dm t"
  by (simp add: lenAt_def map_of_ensureKey)

lemma lenAt_pushIndex:
  "map_of dm k \<noteq> None \<Longrightarrow> lenAt (pushIndex k idx dm) t = lenAt dm t + (if t = k then 1 else 0)"
  by (auto simp: lenAt_def pushIndex_def update_conv')

lemma dom_pushIndex: "map_of dm k' \<noteq> None \<Longrightarrow> map_of (pushIndex k idx dm) k' \<noteq> None"
  by (simp add: pushIndex_def update_conv')

lemma distinct_pushIndex:
  "distinct (map fst m) \<Longrightarrow> distinct (map fst (pushIndex k idx m))"
  by (simp add: pushIndex_def distinct_update)

lemma recordGame_map_of:
  "map_of (recordGame g idx tbd) =
     (map_of tbd)(date g \<mapsto>
        pushIndex (home g) idx (pushIndex (away g) idx
          (ensureKey (home g) [] (ensureKey (away g) []
             (case map_of tbd (date g) of None \<Rightarrow> [] | Some dm \<Rightarrow> dm)))))"
  by (auto simp: recordGame_def Let_def update_conv' map_of_ensureKey split: option.splits)

lemma recordGame_cnt:
  "countAt (recordGame g idx tbd) d t =
     countAt tbd d t + (if date g = d then (if away g = t then 1 else 0) + (if home g = t then 1 else 0)
                    else 0)"
proof -
  define dm0 where "dm0 = (case map_of tbd (date g) of None \<Rightarrow> [] | Some dm \<Rightarrow> dm)"
  define dm1 where "dm1 = ensureKey (home g) [] (ensureKey (away g) [] dm0)"
  have k: "map_of dm1 (away g) \<noteq> None" "map_of dm1 (home g) \<noteq> None"
    by (auto simp: dm1_def map_of_ensureKey)
  have l0: "lenAt dm0 t = countAt tbd (date g) t"
    by (simp add: dm0_def countAt_def lenAt_def split: option.splits)
  have "lenAt (pushIndex (home g) idx (pushIndex (away g) idx dm1)) t
      = lenAt dm0 t + (if away g = t then 1 else 0) + (if home g = t then 1 else 0)"
    using k by (simp add: lenAt_pushIndex dom_pushIndex) (simp add: dm1_def lenAt_ensureKey)
  then show ?thesis
    unfolding dm1_def dm0_def[symmetric] using l0
    by (simp add: countAt_def recordGame_map_of dm0_def[symmetric])
qed

lemma recordGame_wf: "wfDateMaps tbd \<Longrightarrow> wfDateMaps (recordGame g idx tbd)"
proof -
  assume w: "wfDateMaps tbd"
  have d: "distinct (map fst (recordGame g idx tbd))"
    using w by (simp add: recordGame_def Let_def wfDateMaps_def distinct_update distinct_ensureKey)
  have "distinct (map fst (case map_of tbd (date g) of None \<Rightarrow> [] | Some dm \<Rightarrow> dm))"
    using w by (auto simp: wfDateMaps_def split: option.splits)
  then have "distinct (map fst (pushIndex (home g) idx (pushIndex (away g) idx
          (ensureKey (home g) [] (ensureKey (away g) []
             (case map_of tbd (date g) of None \<Rightarrow> [] | Some dm \<Rightarrow> dm))))))"
    by (intro distinct_pushIndex distinct_ensureKey)
  then show ?thesis using w d by (auto simp: wfDateMaps_def recordGame_map_of)
qed

lemma appearances_Cons:
  "appearances d t (g # gs) =
     (if date g = d then (if away g = t then 1 else 0) + (if home g = t then 1 else 0) else 0)
     + appearances d t gs"
  by (simp add: appearances_def)

lemma recordGames_cnt:
  "wfDateMaps tbd \<Longrightarrow> wfDateMaps (recordGames gs idx tbd)
     \<and> countAt (recordGames gs idx tbd) d t = countAt tbd d t + appearances d t gs"
proof (induction gs arbitrary: idx tbd)
  case Nil
  then show ?case by (simp add: appearances_def)
next
  case (Cons g gs)
  from Cons.IH[OF recordGame_wf[OF Cons.prems], of "idx + 1" g idx]
  show ?case by (simp add: recordGame_cnt appearances_Cons)
qed

lemma violationsOf_Nil:
  assumes "wfDateMaps tbd"
  shows "violationsOf tbd = [] \<longleftrightarrow> (\<forall>d t. countAt tbd d t \<le> 1)"
proof
  assume v: "violationsOf tbd = []"
  show "\<forall>d t. countAt tbd d t \<le> 1"
  proof (intro allI)
    fix d t
    show "countAt tbd d t \<le> 1"
    proof (cases "map_of tbd d")
      case None
      then show ?thesis by (simp add: countAt_def)
    next
      case (Some dm)
      then have m: "(d, dm) \<in> set tbd" by (rule map_of_SomeD)
      show ?thesis
      proof (cases "map_of dm t")
        case None
        then show ?thesis using Some by (simp add: countAt_def lenAt_def)
      next
        case (Some ixs)
        then have "(t, ixs) \<in> set dm" by (rule map_of_SomeD)
        with m v have "\<not> length ixs > 1"
          by (fastforce simp: violationsOf_def filter_empty_conv)
        then show ?thesis using Some \<open>map_of tbd d = Some dm\<close> by (simp add: countAt_def lenAt_def)
      qed
    qed
  qed
next
  assume c: "\<forall>d t. countAt tbd d t \<le> 1"
  have "\<not> length ixs > 1" if "(d, dm) \<in> set tbd" "(t, ixs) \<in> set dm" for d dm t ixs
  proof -
    have 1: "map_of tbd d = Some dm" using that(1) assms by (simp add: wfDateMaps_def)
    then have "distinct (map fst dm)" using assms by (auto simp: wfDateMaps_def)
    then have "map_of dm t = Some ixs" using that(2) by simp
    with 1 c[rule_format, of d t] show ?thesis by (simp add: countAt_def lenAt_def)
  qed
  then show "violationsOf tbd = []"
    by (auto simp: violationsOf_def filter_empty_conv)
qed

lemma verify_valid_iff:
  "valid (verifyNoDoubleheaders gs) \<longleftrightarrow> (\<forall>d t. appearances d t gs \<le> 1)"
proof -
  have w: "wfDateMaps []" by (simp add: wfDateMaps_def)
  from recordGames_cnt[OF w, of gs 0] violationsOf_Nil[of "recordGames gs 0 []"]
  show ?thesis by (simp add: verifyNoDoubleheaders_def Let_def countAt_def)
qed

section \<open>Invariants of an attempt\<close>

lemma distinct_insortBy: "distinct (insortBy cmp x ys) \<longleftrightarrow> x \<notin> set ys \<and> distinct ys"
  by (induction ys) (auto simp: set_insortBy)

lemma distinct_sortBy: "distinct (sortBy cmp xs) \<longleftrightarrow> distinct xs"
  by (induction xs) (auto simp: sortBy_def distinct_insortBy set_sortBy[unfolded sortBy_def])

lemma pairsOf_members:
  "e \<in> set (pairsOf xs gpp) \<Longrightarrow> distinct xs \<Longrightarrow>
   teamA e \<in> set xs \<and> teamB e \<in> set xs \<and> teamA e \<noteq> teamB e \<and> remaining e = gpp"
  by (induction xs) auto

lemma pairsOf_distinct:
  "distinct xs \<Longrightarrow> distinct (map unordered (pairsOf xs gpp))"
proof (induction xs)
  case Nil
  then show ?case by simp
next
  case (Cons x xs)
  have 1: "distinct (map unordered (map (\<lambda>y. \<lparr>teamA = x, teamB = y, remaining = gpp\<rparr>) xs))"
    using Cons.prems
    by (auto simp: distinct_map unordered_def inj_on_def doubleton_eq_iff)
  have 2: "unordered e \<noteq> unordered \<lparr>teamA = x, teamB = y, remaining = gpp\<rparr>"
    if "e \<in> set (pairsOf xs gpp)" for e y
  proof -
    have "teamA e \<in> set xs" "teamB e \<in> set xs"
      using pairsOf_members[OF that] Cons.prems by auto
    then have "x \<notin> unordered e" using Cons.prems by (auto simp: unordered_def)
    then show ?thesis by (auto simp: unordered_def)
  qed
  show ?case using Cons 1 2 by (auto simp: o_def)
qed

lemma pairsOf_cover:
  "a \<in> set xs \<Longrightarrow> b \<in> set xs \<Longrightarrow> a \<noteq> b \<Longrightarrow> \<exists>e\<in>set (pairsOf xs gpp). unordered e = {a, b}"
proof (induction xs)
  case Nil
  then show ?case by simp
next
  case (Cons x xs)
  show ?case
  proof (cases "a = x \<or> b = x")
    case True
    define y where "y = (if a = x then b else a)"
    have y: "y \<in> set xs" "{x, y} = {a, b}" using True Cons.prems by (auto simp: y_def)
    have "\<lparr>teamA = x, teamB = y, remaining = gpp\<rparr> \<in> set (pairsOf (x # xs) gpp)"
      using y(1) by simp
    moreover have "unordered \<lparr>teamA = x, teamB = y, remaining = gpp\<rparr> = {a, b}"
      using y(2) by (simp add: unordered_def)
    ultimately show ?thesis by blast
  next
    case False
    then show ?thesis using Cons by auto
  qed
qed

lemma byBalance_sides:
  "fst (byBalance e t hc ac) = (teamA e, teamB e) \<or> fst (byBalance e t hc ac) = (teamB e, teamA e)"
  by (simp add: byBalance_def Let_def)

lemma assignGame_sides:
  assumes "teamA e \<noteq> teamB e" "teamA e \<noteq> []" "teamB e \<noteq> []"
    and "case lck of None \<Rightarrow> True
         | Some l \<Rightarrow> sidesWithinRequired l
             \<and> (requiredTeams l \<noteq> [] \<longrightarrow> set (requiredTeams l) \<subseteq> {teamA e, teamB e})"
  shows "{away (fst (assignGame s e t lck hc ac)), home (fst (assignGame s e t lck hc ac))}
           = {teamA e, teamB e}
       \<and> away (fst (assignGame s e t lck hc ac)) \<noteq> home (fst (assignGame s e t lck hc ac))
       \<and> date (fst (assignGame s e t lck hc ac)) = sdate s"
proof (cases lck)
  case None
  then show ?thesis using byBalance_sides[of e t hc ac] assms(1)
    by (auto simp: assignGame_def split: prod.splits)
next
  case (Some l)
  obtain aw hm t1 where bb: "byBalance e t hc ac = ((aw, hm), t1)"
    by (cases "byBalance e t hc ac") auto
  then have bs: "(aw = teamA e \<and> hm = teamB e) \<or> (aw = teamB e \<and> hm = teamA e)"
    using byBalance_sides[of e t hc ac] by auto
  have req: "truthy (lockAway l) \<Longrightarrow> the (lockAway l) \<in> {teamA e, teamB e}"
       "truthy (lockHome l) \<Longrightarrow> the (lockHome l) \<in> {teamA e, teamB e}"
    using assms(4) Some by (auto simp: sidesWithinRequired_def)
  have ne: "truthy (lockAway l) \<Longrightarrow> truthy (lockHome l) \<Longrightarrow> the (lockAway l) \<noteq> the (lockHome l)"
    using assms(4) Some by (auto simp: sidesWithinRequired_def truthy_def split: option.splits)
  have ot: "x \<in> {teamA e, teamB e} \<Longrightarrow> {x, otherTeam e x} = {teamA e, teamB e} \<and> otherTeam e x \<noteq> x"
    for x
    using assms(1,2,3) by (auto simp: otherTeam_def truthy_def)
  consider (both) "truthy (lockAway l)" "truthy (lockHome l)"
    | (aw) "truthy (lockAway l)" "\<not> truthy (lockHome l)"
    | (hm) "\<not> truthy (lockAway l)" "truthy (lockHome l)"
    | (none) "\<not> truthy (lockAway l)" "\<not> truthy (lockHome l)" by blast
  then show ?thesis
  proof cases
    case both
    then show ?thesis using Some req ne assms(1) by (auto simp: assignGame_def)
  next
    case aw
    then show ?thesis using Some ot[OF req(1)] by (auto simp: assignGame_def)
  next
    case hm
    then show ?thesis using Some ot[OF req(2)] by (auto simp: assignGame_def insert_commute)
  next
    case none
    then show ?thesis using Some bb bs assms(1) by (auto simp: assignGame_def)
  qed
qed

lemma fillSlot_Some:
  assumes "fillSlot gwk ts locks minT maxT al i s st = Some st'"
  shows "\<exists>c t1. c < length (ledger st)
      \<and> 0 < remaining (ledger st ! c)
      \<and> teamA (ledger st ! c) \<notin> teamsByDate st (sdate s)
      \<and> teamB (ledger st ! c) \<notin> teamsByDate st (sdate s)
      \<and> (\<forall>l. map_of locks (case index s of None \<Rightarrow> i | Some j \<Rightarrow> j) = Some l
             \<longrightarrow> requiredTeams l \<noteq> []
             \<longrightarrow> set (requiredTeams l) \<subseteq> {teamA (ledger st ! c), teamB (ledger st ! c)})
      \<and> ledger st' = (ledger st)[c := (ledger st ! c)\<lparr>remaining := remaining (ledger st ! c) - 1\<rparr>]
      \<and> assignments st' = assignments st @
           [fst (assignGame s (ledger st ! c) t1
                  (map_of locks (case index s of None \<Rightarrow> i | Some j \<Rightarrow> j))
                  (homeCount st) (awayCount st))]
      \<and> teamsByDate st' = (teamsByDate st)
           (sdate s := insert (home (fst (assignGame s (ledger st ! c) t1
                  (map_of locks (case index s of None \<Rightarrow> i | Some j \<Rightarrow> j))
                  (homeCount st) (awayCount st))))
              (insert (away (fst (assignGame s (ledger st ! c) t1
                  (map_of locks (case index s of None \<Rightarrow> i | Some j \<Rightarrow> j))
                  (homeCount st) (awayCount st))))
                 (teamsByDate st (sdate s))))"
proof -
  define lk where "lk = map_of locks (case index s of None \<Rightarrow> i | Some j \<Rightarrow> j)"
  define A where "A = \<lparr>pairs = ledger st, isTargetSlot = (slotLabel s = ts),
                  teamTargetCounts = targetCounts st, minTarget = minT, maxTarget = maxT,
                  teamGamesRemaining = remainingGames st, rng = gen st,
                  required = (case lk of None \<Rightarrow> None | Some l \<Rightarrow> Some (requiredTeams l)),
                  teamsPlayedToday = teamsByDate st (sdate s), allLockedTeams = al,
                  teamsThisWeek = teamsByWeek st (gwk (sdate s))\<rparr>"
  obtain o1 t1 where sel: "selectPair A = (o1, t1)" by (cases "selectPair A")
  from assms sel obtain c where c: "o1 = Some c"
    by (cases o1) (auto simp: fillSlot_eval A_def lk_def)
  obtain g t2 where ag: "assignGame s (ledger st ! c) t1 lk (homeCount st) (awayCount st) = (g, t2)"
    by (cases "assignGame s (ledger st ! c) t1 lk (homeCount st) (awayCount st)")
  have el: "c < length (ledger st)" "rejectedBy A (ledger st ! c) = None"
    using selectPair_eligible[of A c] sel c by (simp_all add: A_def)
  have f: "forced A" if "lk = Some l" "requiredTeams l \<noteq> []" for l
    using that by (simp add: forced_def A_def)
  have r: "set (requiredTeams l) \<subseteq> {teamA (ledger st ! c), teamB (ledger st ! c)}"
    if "lk = Some l" "requiredTeams l \<noteq> []" for l
    using rejectedBy_None(2)[OF el(2) f[OF that]] that by (simp add: A_def)
  have p: "teamA (ledger st ! c) \<notin> teamsByDate st (sdate s)"
          "teamB (ledger st ! c) \<notin> teamsByDate st (sdate s)"
    using rejectedBy_None(3,4)[OF el(2)] by (simp_all add: A_def)
  have st': "ledger st' = (ledger st)[c := (ledger st ! c)\<lparr>remaining := remaining (ledger st ! c) - 1\<rparr>]"
      "assignments st' = assignments st @ [g]"
      "teamsByDate st' = (teamsByDate st)
           (sdate s := insert (home g) (insert (away g) (teamsByDate st (sdate s))))"
    using assms sel c ag by (auto simp: fillSlot_eval A_def[symmetric] lk_def[symmetric])
  show ?thesis
    unfolding lk_def[symmetric]
    apply (rule exI[of _ c], rule exI[of _ t1])
    using el(1) rejectedBy_None(1)[OF el(2)] p r st' ag by simp
qed

lemma appearances_snoc:
  "appearances d t (gs @ [g]) =
     appearances d t gs
     + (if date g = d then (if away g = t then 1 else 0) + (if home g = t then 1 else 0) else 0)"
  by (simp add: appearances_def)

lemma fillSlot_inv:
  assumes fs: "fillSlot gwk ts locks minT maxT al i s st = Some st'"
    and li: "ledgerInv P gpp st" and di: "dateInv st"
    and wp: "wellFormedPairs P"
    and lo: "\<forall>l\<in>snd ` set locks. sidesWithinRequired l"
  shows "ledgerInv P gpp st' \<and> dateInv st'"
proof -
  define lk where "lk = map_of locks (case index s of None \<Rightarrow> i | Some j \<Rightarrow> j)"
  from fillSlot_Some[OF fs] obtain c t1 where
    c: "c < length (ledger st)" and pos: "0 < remaining (ledger st ! c)"
    and np: "teamA (ledger st ! c) \<notin> teamsByDate st (sdate s)"
            "teamB (ledger st ! c) \<notin> teamsByDate st (sdate s)"
    and rq: "\<forall>l. lk = Some l \<longrightarrow> requiredTeams l \<noteq> []
             \<longrightarrow> set (requiredTeams l) \<subseteq> {teamA (ledger st ! c), teamB (ledger st ! c)}"
    and l': "ledger st' = (ledger st)[c := (ledger st ! c)\<lparr>remaining := remaining (ledger st ! c) - 1\<rparr>]"
    and a': "assignments st' = assignments st @
           [fst (assignGame s (ledger st ! c) t1 lk (homeCount st) (awayCount st))]"
    and d': "teamsByDate st' = (teamsByDate st)
           (sdate s := insert (home (fst (assignGame s (ledger st ! c) t1 lk (homeCount st) (awayCount st))))
              (insert (away (fst (assignGame s (ledger st ! c) t1 lk (homeCount st) (awayCount st))))
                 (teamsByDate st (sdate s))))"
    unfolding lk_def by blast
  define e where "e = ledger st ! c"
  define g where "g = fst (assignGame s e t1 lk (homeCount st) (awayCount st))"
  have len: "length (ledger st) = length P"
    using li by (auto simp: ledgerInv_def dest: map_eq_imp_length_eq)
  have tm: "teamA (ledger st ! k) = teamA (P ! k) \<and> teamB (ledger st ! k) = teamB (P ! k)"
    if "k < length P" for k
  proof -
    have "map teamA (ledger st) ! k = map teamA P ! k" "map teamB (ledger st) ! k = map teamB P ! k"
      using li by (simp_all add: ledgerInv_def)
    then show ?thesis using that len by simp
  qed
  have un: "unordered (ledger st ! k) = unordered (P ! k)" if "k < length P" for k
    using tm[OF that] by (simp add: unordered_def)
  have cP: "c < length P" using c len by simp
  have pe: "teamA e \<noteq> teamB e" "teamA e \<noteq> []" "teamB e \<noteq> []"
    using wp tm[OF cP] cP by (auto simp: wellFormedPairs_def e_def)
  have lkc: "case lk of None \<Rightarrow> True
         | Some l \<Rightarrow> sidesWithinRequired l
             \<and> (requiredTeams l \<noteq> [] \<longrightarrow> set (requiredTeams l) \<subseteq> {teamA e, teamB e})"
  proof (cases lk)
    case None
    then show ?thesis by simp
  next
    case (Some l)
    then have "l \<in> snd ` set locks" unfolding lk_def by (force dest: map_of_SomeD)
    then have "sidesWithinRequired l" using lo by blast
    then show ?thesis using Some rq by (simp add: e_def)
  qed
  from assignGame_sides[OF pe lkc, of s t1 "homeCount st" "awayCount st"]
  have gs: "{away g, home g} = unordered e" "away g \<noteq> home g" "date g = sdate s"
    by (simp_all add: g_def unordered_def)
  have a'': "assignments st' = assignments st @ [g]" using a' by (simp add: g_def e_def)
  have d'': "teamsByDate st' = (teamsByDate st)
       (sdate s := insert (home g) (insert (away g) (teamsByDate st (sdate s))))"
    using d' by (simp add: g_def e_def)
  have l'': "ledger st' = (ledger st)[c := e\<lparr>remaining := remaining e - 1\<rparr>]"
    using l' by (simp add: e_def)
  \<comment> \<open>the ledger\<close>
  have "map teamA (ledger st') = (map teamA (ledger st))[c := map teamA (ledger st) ! c]"
       "map teamB (ledger st') = (map teamB (ledger st))[c := map teamB (ledger st) ! c]"
    using c by (simp_all add: l'' map_update e_def)
  then have m1: "map teamA (ledger st') = map teamA P" "map teamB (ledger st') = map teamB P"
    using li by (simp_all add: ledgerInv_def)
  have m2: "(0 \<le> gpp \<longrightarrow> 0 \<le> remaining (ledger st' ! k))
            \<and> remaining (ledger st' ! k)
                + int (length (filter (\<lambda>g. {away g, home g} = unordered (ledger st' ! k))
                         (assignments st'))) = gpp"
    if k: "k < length (ledger st')" for k
  proof (cases "k = c")
    case True
    have "remaining e
        + int (length (filter (\<lambda>g. {away g, home g} = unordered e) (assignments st))) = gpp"
      using li c by (simp add: ledgerInv_def e_def)
    then show ?thesis using True c pos gs(1)
      by (simp add: l'' a'' unordered_def e_def[symmetric])
  next
    case False
    have kP: "k < length P" using k len by (simp add: l'')
    have dP: "distinct (map unordered P)" using wp by (simp add: wellFormedPairs_def)
    have "map unordered P ! k \<noteq> map unordered P ! c"
      using nth_eq_iff_index_eq[OF dP, of k c] False kP cP by simp
    then have "unordered (P ! k) \<noteq> unordered (P ! c)" using kP cP by simp
    then have "unordered (ledger st ! k) \<noteq> unordered e"
      using un[OF kP] un[OF cP] by (simp add: e_def)
    moreover have "(0 \<le> gpp \<longrightarrow> 0 \<le> remaining (ledger st ! k)) \<and> remaining (ledger st ! k)
        + int (length (filter (\<lambda>g. {away g, home g} = unordered (ledger st ! k))
                 (assignments st))) = gpp"
      using li kP len by (simp add: ledgerInv_def)
    ultimately show ?thesis using False gs(1) by (simp add: l'' a'')
  qed
  have L: "ledgerInv P gpp st'" using m1 m2 by (simp add: ledgerInv_def)
  \<comment> \<open>the dates\<close>
  have old: "\<And>d t. t \<in> teamsByDate st d \<longleftrightarrow> 0 < appearances d t (assignments st)"
    and one: "\<And>d t. appearances d t (assignments st) \<le> 1"
    using di by (simp_all add: dateInv_def)
  have fresh: "appearances (sdate s) (away g) (assignments st) = 0"
              "appearances (sdate s) (home g) (assignments st) = 0"
  proof -
    have "away g \<in> {teamA e, teamB e}" "home g \<in> {teamA e, teamB e}"
      using gs(1) by (auto simp: unordered_def)
    then have "away g \<notin> teamsByDate st (sdate s)" "home g \<notin> teamsByDate st (sdate s)"
      using np by (auto simp: e_def)
    then show "appearances (sdate s) (away g) (assignments st) = 0"
              "appearances (sdate s) (home g) (assignments st) = 0"
      using old by simp_all
  qed
  have D1: "t \<in> teamsByDate st' d \<longleftrightarrow> 0 < appearances d t (assignments st')" for d t
    using old[of t d] gs(3) by (auto simp: d'' a'' appearances_snoc)
  have D2: "appearances d t (assignments st') \<le> 1" for d t
    using one[of d t] fresh gs(2,3) by (auto simp: a'' appearances_snoc)
  have "dateInv st'" using D1 D2 by (simp add: dateInv_def)
  with L show ?thesis by simp
qed

lemma fillSlots_inv:
  assumes "fillSlots gwk ts locks minT maxT al i slots st = (None, st')"
    and "ledgerInv P gpp st" and "dateInv st"
    and "wellFormedPairs P"
    and "\<forall>l\<in>snd ` set locks. sidesWithinRequired l"
  shows "ledgerInv P gpp st' \<and> dateInv st'"
  using assms
proof (induction slots arbitrary: i st)
  case Nil
  then show ?case by simp
next
  case (Cons s slots)
  from Cons.prems(1) obtain st1 where
    1: "fillSlot gwk ts locks minT maxT al i s st = Some st1"
    and 2: "fillSlots gwk ts locks minT maxT al (i + 1) slots st1 = (None, st')"
    by (auto split: option.splits)
  from fillSlot_inv[OF 1 Cons.prems(2,3,4,5)]
  show ?case using Cons.IH[OF 2 _ _ Cons.prems(4,5)] by simp
qed

lemma createPairState_wellFormed:
  assumes "distinct teams" "[] \<notin> set teams"
  shows "wellFormedPairs (createPairState lc teams gpp)"
proof -
  have d: "distinct (sortBy lc teams)" using assms(1) by (simp add: distinct_sortBy)
  have "teamA e \<noteq> teamB e \<and> teamA e \<noteq> [] \<and> teamB e \<noteq> []"
    if "e \<in> set (pairsOf (sortBy lc teams) gpp)" for e
    using pairsOf_members[OF that d] assms(2) by (auto simp: set_sortBy)
  then show ?thesis
    using pairsOf_distinct[OF d, of gpp] by (simp add: wellFormedPairs_def createPairState_def)
qed

lemma initial_inv:
  assumes "distinct teams"
  shows "ledgerInv (createPairState lc teams gpp) gpp (initialAttempt lc teams sd gpp)"
    and "dateInv (initialAttempt lc teams sd gpp)"
proof -
  have d: "distinct (sortBy lc teams)" using assms(1) by (simp add: distinct_sortBy)
  have "remaining (createPairState lc teams gpp ! k) = gpp"
    if "k < length (createPairState lc teams gpp)" for k
    using pairsOf_members[OF nth_mem[OF that[unfolded createPairState_def]] d]
    by (simp add: createPairState_def)
  then show "ledgerInv (createPairState lc teams gpp) gpp (initialAttempt lc teams sd gpp)"
    by (simp add: ledgerInv_def initialAttempt_def Let_def)
  show "dateInv (initialAttempt lc teams sd gpp)"
    by (simp add: dateInv_def initialAttempt_def Let_def appearances_def)
qed

lemma success_state:
  assumes "succeeded (tryGenerateSchedule lc gwk teams slots ts sd gpp locks)"
  shows "\<exists>st. fillSlots gwk ts locks
               (fst (computeTargetRange (length teams) (length (filter (\<lambda>s. slotLabel s = ts) slots))))
               (snd (computeTargetRange (length teams) (length (filter (\<lambda>s. slotLabel s = ts) slots))))
               (lockedTeamsOf locks) 0 slots (initialAttempt lc teams sd gpp) = (None, st)
            \<and> gamesOf (tryGenerateSchedule lc gwk teams slots ts sd gpp locks) = assignments st
            \<and> (\<forall>e\<in>set (ledger st). \<not> 0 < remaining e)"
  using assms
  by (auto simp: tryGenerateSchedule_eval filter_empty_conv split: prod.splits option.splits if_splits)

lemma success_inv:
  assumes "distinct teams" "[] \<notin> set teams"
    and "\<forall>l\<in>snd ` set locks. sidesWithinRequired l"
    and "succeeded (tryGenerateSchedule lc gwk teams slots ts sd gpp locks)"
  shows "\<exists>st. gamesOf (tryGenerateSchedule lc gwk teams slots ts sd gpp locks) = assignments st
            \<and> (\<forall>e\<in>set (ledger st). \<not> 0 < remaining e)
            \<and> ledgerInv (createPairState lc teams gpp) gpp st \<and> dateInv st"
proof -
  from success_state[OF assms(4)] obtain st where
    f: "fillSlots gwk ts locks
               (fst (computeTargetRange (length teams) (length (filter (\<lambda>s. slotLabel s = ts) slots))))
               (snd (computeTargetRange (length teams) (length (filter (\<lambda>s. slotLabel s = ts) slots))))
               (lockedTeamsOf locks) 0 slots (initialAttempt lc teams sd gpp) = (None, st)"
    and g: "gamesOf (tryGenerateSchedule lc gwk teams slots ts sd gpp locks) = assignments st"
    and r: "\<forall>e\<in>set (ledger st). \<not> 0 < remaining e" by blast
  from fillSlots_inv[OF f initial_inv[OF assms(1)] createPairState_wellFormed[OF assms(1,2)] assms(3)]
  show ?thesis using g r by blast
qed

text \<open>
  C1 says that a successful result of \<open>tryGenerateSchedule\<close> contains every
  unordered pair of distinct teams as opponents exactly games-per-pair times.
  The ledger and the final check for unfinished entries are there to ensure
  it, and the code breaks it: \<open>assignGame\<close> writes both sides of a lock that
  gives them, whatever pair \<open>selectPair\<close> chose, while the ledger counts the
  chosen pair; the branches for a lock that gives one side take the other
  side from the chosen pair.  Here team A is locked to two historical games,
  both A @ B, and each pair is to meet once: \<open>selectPair\<close> takes the pair
  A-C for one of the two locked slots and A-B for the other, both games are
  written A @ B, and the attempt succeeds with A and B meeting twice and A
  and C never.
\<close>

theorem explicit_sides_break_pair_counts:
  "succeeded (tryGenerateSchedule compareStrings exampleWeekKey [''A'', ''B'', ''C'']
      threeSlots evening ''t1-0'' 1 repeatLocks)
   \<and> gamesOf (tryGenerateSchedule compareStrings exampleWeekKey [''A'', ''B'', ''C'']
        threeSlots evening ''t1-0'' 1 repeatLocks)
     = [mkGame ''03/01/2026'' afternoon ''A'' ''B'', mkGame ''03/08/2026'' afternoon ''A'' ''B'',
        mkGame ''03/15/2026'' evening ''B'' ''C'']
   \<and> meetings ''A'' ''C'' (gamesOf (tryGenerateSchedule compareStrings exampleWeekKey
        [''A'', ''B'', ''C''] threeSlots evening ''t1-0'' 1 repeatLocks)) = 0
   \<and> meetings ''A'' ''B'' (gamesOf (tryGenerateSchedule compareStrings exampleWeekKey
        [''A'', ''B'', ''C''] threeSlots evening ''t1-0'' 1 repeatLocks)) = 2"
  using run_threeSlots by (simp add: meetings_def mkGame_def doubleton_eq_iff)

text \<open>
  Away from that branch the ledger and the games agree.  For distinct,
  non-empty team names, a non-negative games-per-pair, and locks whose
  explicit sides, where given, are among the lock's required teams and differ
  from each other, every successful result contains each unordered pair of
  distinct teams exactly games-per-pair times.
\<close>

theorem pair_counts:
  assumes "distinct teams" "[] \<notin> set teams" "0 \<le> gpp"
    and "\<forall>l\<in>snd ` set locks. sidesWithinRequired l"
    and "succeeded (tryGenerateSchedule lc gwk teams slots ts sd gpp locks)"
  shows "\<forall>a\<in>set teams. \<forall>b\<in>set teams. a \<noteq> b \<longrightarrow>
           int (meetings a b (gamesOf (tryGenerateSchedule lc gwk teams slots ts sd gpp locks))) = gpp"
proof (intro ballI impI)
  fix a b assume ab: "a \<in> set teams" "b \<in> set teams" "a \<noteq> b"
  let ?P = "createPairState lc teams gpp"
  from success_inv[OF assms(1,2,4,5)] obtain st where
    g: "gamesOf (tryGenerateSchedule lc gwk teams slots ts sd gpp locks) = assignments st"
    and r: "\<forall>e\<in>set (ledger st). \<not> 0 < remaining e"
    and li: "ledgerInv ?P gpp st" by blast
  from pairsOf_cover[of a "sortBy lc teams" b gpp] ab
  obtain e where e: "e \<in> set ?P" "unordered e = {a, b}"
    by (auto simp: set_sortBy createPairState_def)
  then obtain k where k: "k < length ?P" "?P ! k = e" by (auto simp: in_set_conv_nth)
  have len: "length (ledger st) = length ?P"
    using li by (auto simp: ledgerInv_def dest: map_eq_imp_length_eq)
  have "map teamA (ledger st) ! k = map teamA ?P ! k" "map teamB (ledger st) ! k = map teamB ?P ! k"
    using li by (simp_all add: ledgerInv_def)
  then have u: "unordered (ledger st ! k) = {a, b}"
    using k len e(2) by (simp add: unordered_def)
  have "remaining (ledger st ! k) \<le> 0" using r k(1) len by (simp add: not_less)
  moreover have "(0 \<le> gpp \<longrightarrow> 0 \<le> remaining (ledger st ! k))
     \<and> remaining (ledger st ! k)
         + int (length (filter (\<lambda>g. {away g, home g} = unordered (ledger st ! k))
                  (assignments st))) = gpp"
    using li k(1) len by (simp add: ledgerInv_def)
  ultimately show "int (meetings a b (gamesOf (tryGenerateSchedule lc gwk teams slots ts sd gpp locks))) = gpp"
    using assms(3) by (simp add: meetings_def g u)
qed

lemma teamLocks_sides: "\<forall>l\<in>snd ` set teamLocks. sidesWithinRequired l"
  by (simp add: teamLocks_def singleLock_def sidesWithinRequired_def truthy_def)

theorem pair_counts_example:
  "distinct [''A'', ''B'', ''C'', ''D''] \<and> [] \<notin> set [''A'', ''B'', ''C'', ''D'']
   \<and> list_all sidesWithinRequired (map snd teamLocks)
   \<and> succeeded (tryGenerateSchedule compareStrings exampleWeekKey [''A'', ''B'', ''C'', ''D'']
        sixSlots evening ''t1-0'' 1 teamLocks)
   \<and> gamesOf (tryGenerateSchedule compareStrings exampleWeekKey [''A'', ''B'', ''C'', ''D'']
        sixSlots evening ''t1-0'' 1 teamLocks) = teamLockGames
   \<and> map (\<lambda>(a, b). meetings a b teamLockGames)
        [(''A'', ''B''), (''A'', ''C''), (''A'', ''D''), (''B'', ''C''), (''B'', ''D''),
         (''C'', ''D'')] = [1, 1, 1, 1, 1, 1]"
proof -
  have d: "distinct [''A'', ''B'', ''C'', ''D'']" "[] \<notin> set [''A'', ''B'', ''C'', ''D'']"
    "(0 :: int) \<le> 1" by simp_all
  note pc = pair_counts[OF d teamLocks_sides run_teamLocks[THEN conjunct1],
      unfolded run_teamLocks[THEN conjunct2]]
  have "int (meetings a b teamLockGames) = 1"
    if "a \<in> set [''A'', ''B'', ''C'', ''D'']" "b \<in> set [''A'', ''B'', ''C'', ''D'']" "a \<noteq> b"
    for a b
    using pc that by blast
  then have "map (\<lambda>(a, b). meetings a b teamLockGames)
        [(''A'', ''B''), (''A'', ''C''), (''A'', ''D''), (''B'', ''C''), (''B'', ''D''),
         (''C'', ''D'')] = [1, 1, 1, 1, 1, 1]"
    by simp
  with d run_teamLocks teamLocks_sides show ?thesis by (simp add: list_all_iff)
qed

lemma attemptLoopWith_failure:
  assumes "int attempt < maxAttempts"
    and "tryGenerateSchedule lc gwk teams slots targetSlot (sd @ ''-'' @ digitsOf attempt) gpp
           locks = Failure why slotIndex partial"
  shows "attemptLoopWith optz lc gwk teams slots targetSlot sd gpp maxAttempts locks optimizeHomeAway
           attempt failures =
         attemptLoopWith optz lc gwk teams slots targetSlot sd gpp maxAttempts locks optimizeHomeAway
           (attempt + 1)
           (failures @ [\<lparr>fattempt = attempt + 1, freason = why, fslotIndex = slotIndex,
              partialGames = partial, fseed = sd @ ''-'' @ digitsOf attempt\<rparr>])"
  using assms by (subst attemptLoopWith.simps) (simp add: Let_def)

lemma attemptLoopWith_valid:
  "attemptLoopWith optz lc gwk teams slots ts sd gpp maxAttempts locks opt attempt failures = Inr r
   \<Longrightarrow> valid (verifyNoDoubleheaders (finalGames r))"
proof (induction optz lc gwk teams slots ts sd gpp maxAttempts locks opt attempt failures
       rule: attemptLoopWith.induct)
  case (1 optz lc gwk teams slots ts sd gpp maxAttempts locks opt attempt failures)
  have lt: "int attempt < maxAttempts"
  proof (rule ccontr)
    assume "\<not> int attempt < maxAttempts"
    then have "\<exists>e. attemptLoopWith optz lc gwk teams slots ts sd gpp maxAttempts locks opt attempt failures
        = Inl e"
      by (subst attemptLoopWith.simps) simp
    with "1.prems" show False by auto
  qed
  show ?case
  proof (cases "tryGenerateSchedule lc gwk teams slots ts (sd @ ''-'' @ digitsOf attempt) gpp locks")
    case (Failure why slotIndex partial)
    from "1.IH"(1)[OF lt refl refl Failure] "1.prems" attemptLoopWith_failure[OF lt Failure]
    show ?thesis by simp
  next
    case (Success gs mn mx tc hc ac)
    show ?thesis
    proof (cases "valid (verifyNoDoubleheaders gs)")
      case False
      from "1.IH"(2)[OF lt refl refl Success refl False] "1.prems"
           attemptLoopWith_success[OF lt Success, of optz opt failures] False
      show ?thesis by simp
    next
      case True
      from "1.prems" attemptLoopWith_success[OF lt Success, of optz opt failures] True
      show ?thesis by (auto split: if_splits)
    qed
  qed
qed

text \<open>Whatever an attempt returns, and whatever the optimizer does to it, a
  schedule that \<open>generateBalancedSchedule\<close> returns has passed
  \<open>verifyNoDoubleheaders\<close>: the loop checks the attempt's games and the
  optimizer's output before it returns either.\<close>

lemma generate_valid:
  "generateBalancedSchedule lc gwk now teams slots ts seedArg gpp maxAttempts locks opt = Inr r
   \<Longrightarrow> valid (verifyNoDoubleheaders (finalGames r))"
  by (auto simp: generateBalancedSchedule_def Let_def split: if_splits dest: attemptLoopWith_valid)

text \<open>
  C2 says that in a successful result of \<open>tryGenerateSchedule\<close> no team
  appears in two games sharing a date, lock-forced slots included, so that
  \<open>verifyNoDoubleheaders\<close> on the returned games yields valid.  The
  same-day filter of \<open>selectPair\<close> is there to ensure it in every slot, and
  the code breaks it in the same branch of \<open>assignGame\<close>: the filter tests
  the teams of the chosen pair, not the teams that are written.  Here team A
  is locked to its three historical games with both sides given, and the
  second slot, A @ B, shares its date with the first.  \<open>selectPair\<close> puts
  D-B into the first slot and A-C into the second, where A @ B is written:
  the attempt succeeds and B plays twice on that date.
\<close>

theorem explicit_sides_make_doubleheader:
  "succeeded (tryGenerateSchedule compareStrings exampleWeekKey [''A'', ''B'', ''C'', ''D'']
      sixSlots evening ''t1-0'' 1 historicalLocks)
   \<and> gamesOf (tryGenerateSchedule compareStrings exampleWeekKey [''A'', ''B'', ''C'', ''D'']
        sixSlots evening ''t1-0'' 1 historicalLocks) = sixGames
   \<and> \<not> valid (verifyNoDoubleheaders (gamesOf (tryGenerateSchedule compareStrings
        exampleWeekKey [''A'', ''B'', ''C'', ''D''] sixSlots evening ''t1-0'' 1 historicalLocks)))
   \<and> appearances ''03/01/2026'' ''B'' (gamesOf (tryGenerateSchedule compareStrings
        exampleWeekKey [''A'', ''B'', ''C'', ''D''] sixSlots evening ''t1-0'' 1 historicalLocks)) = 2"
  using run_sixSlots sixGames_doubleheader
  by (simp add: appearances_def) (simp add: sixGames_def mkGame_def)

text \<open>
  Away from that branch the filter does what it is there for.  For distinct,
  non-empty team names and locks whose explicit sides, where given, are among
  the lock's required teams and differ from each other, no successful result
  has a team in two games sharing a date.
\<close>

theorem no_doubleheaders:
  assumes "distinct teams" "[] \<notin> set teams"
    and "\<forall>l\<in>snd ` set locks. sidesWithinRequired l"
    and "succeeded (tryGenerateSchedule lc gwk teams slots ts sd gpp locks)"
  shows "valid (verifyNoDoubleheaders (gamesOf (tryGenerateSchedule lc gwk teams slots ts sd gpp locks)))
       \<and> (\<forall>d t. appearances d t
                   (gamesOf (tryGenerateSchedule lc gwk teams slots ts sd gpp locks)) \<le> 1)"
proof -
  from success_inv[OF assms] obtain st where
    g: "gamesOf (tryGenerateSchedule lc gwk teams slots ts sd gpp locks) = assignments st"
    and di: "dateInv st" by blast
  then have "\<forall>d t. appearances d t (assignments st) \<le> 1" by (simp add: dateInv_def)
  then show ?thesis by (simp add: g verify_valid_iff)
qed

theorem no_doubleheaders_example:
  "distinct [''A'', ''B'', ''C'', ''D''] \<and> [] \<notin> set [''A'', ''B'', ''C'', ''D'']
   \<and> list_all sidesWithinRequired (map snd teamLocks)
   \<and> succeeded (tryGenerateSchedule compareStrings exampleWeekKey [''A'', ''B'', ''C'', ''D'']
        sixSlots evening ''t1-0'' 1 teamLocks)
   \<and> gamesOf (tryGenerateSchedule compareStrings exampleWeekKey [''A'', ''B'', ''C'', ''D'']
        sixSlots evening ''t1-0'' 1 teamLocks) = teamLockGames
   \<and> valid (verifyNoDoubleheaders teamLockGames)
   \<and> map (\<lambda>t. appearances ''03/01/2026'' t teamLockGames) [''A'', ''B'', ''C'', ''D'']
       = [1, 1, 1, 1]"
proof -
  have d: "distinct [''A'', ''B'', ''C'', ''D'']" "[] \<notin> set [''A'', ''B'', ''C'', ''D'']"
    by simp_all
  note nd = no_doubleheaders[OF d teamLocks_sides run_teamLocks[THEN conjunct1],
      unfolded run_teamLocks[THEN conjunct2]]
  have v: "valid (verifyNoDoubleheaders teamLockGames)" using nd by blast
  have "map (\<lambda>t. appearances ''03/01/2026'' t teamLockGames) [''A'', ''B'', ''C'', ''D'']
       = [1, 1, 1, 1]"
    by (simp add: appearances_def teamLockGames_def mkGame_def)
  with d run_teamLocks teamLocks_sides v show ?thesis by (simp add: list_all_iff)
qed

section \<open>The optimizer and the doubleheader check\<close>




section \<open>Determinism\<close>












































end
